theory Spec2Isabelle
  imports Complex_Main "HOL-Library.Sublist"
begin

section \<open>Strings of the scripts\<close>

text \<open>
  A JavaScript string is modelled as a \<^typ>\<open>string\<close>: the list of its code units, so that
  \<open>s.length\<close> is \<^term>\<open>length s\<close>.  Numbers are modelled exactly: counts as \<^typ>\<open>nat\<close>,
  \<open>additions\<close> as \<^typ>\<open>int\<close>, probabilities as \<^typ>\<open>real\<close> (no rounding of doubles).
\<close>

definition digitChar :: "nat \<Rightarrow> char" where
  "digitChar d = ''0123456789'' ! d"

fun showNat :: "nat \<Rightarrow> string" where
  "showNat n = (if n < 10 then [digitChar n] else showNat (n div 10) @ [digitChar (n mod 10)])"

declare showNat.simps [simp del]

text \<open>\<open>s.includes(p)\<close>, which is also the test of a regular expression made of a literal.\<close>

fun strIncludes :: "string \<Rightarrow> string \<Rightarrow> bool" where
  "strIncludes [] p = (p = [])"
| "strIncludes (c # cs) p = (prefix p (c # cs) \<or> strIncludes cs p)"

text \<open>White space and line terminators, as \<open>\s\<close> and \<open>trim\<close> read them (code units below 256).\<close>

definition isJsSpace :: "char \<Rightarrow> bool" where
  "isJsSpace c = ((of_char c :: nat) \<in> set [9, 10, 11, 12, 13, 32, 160])"

definition trim :: "string \<Rightarrow> string" where
  "trim s = rev (dropWhile isJsSpace (rev (dropWhile isJsSpace s)))"

definition toLowerAscii :: "char \<Rightarrow> char" where
  "toLowerAscii c =
     (if (65::nat) \<le> of_char c \<and> (of_char c :: nat) \<le> 90 then char_of ((of_char c :: nat) + 32) else c)"

text \<open>\<open>/test|spec/i.test(name)\<close>\<close>

definition isTestPath :: "string \<Rightarrow> bool" where
  "isTestPath name =
     (let l = map toLowerAscii name in strIncludes l ''test'' \<or> strIncludes l ''spec'')"

definition licenseMarkers :: "string list" where
  "licenseMarkers = [''SPDX-License-Identifier'', ''MIT License'', ''Apache License'']"

text \<open>\<open>/SPDX-License-Identifier|MIT License|Apache License/.test(content)\<close>\<close>

definition hasLicenseText :: "string \<Rightarrow> bool" where
  "hasLicenseText c = list_ex (strIncludes c) licenseMarkers"

text \<open>\<open>/\+\s*(SPDX-License-Identifier|MIT License|Apache License)/.test(patch)\<close>\<close>

fun hasAddedLicense :: "string \<Rightarrow> bool" where
  "hasAddedLicense [] = False"
| "hasAddedLicense (c # cs) =
     ((c = CHR ''+'' \<and> list_ex (\<lambda>m. prefix m (dropWhile isJsSpace cs)) licenseMarkers)
      \<or> hasAddedLicense cs)"

section \<open>Batching\<close>

text \<open>
  Both scripts of \<open>scripts/index.js\<close> keep the same three variables while they batch:
  \<open>batches\<close>, \<open>currentBatch\<close> and \<open>currentBatchSize\<close>.
\<close>

record 'a batchVars =
  batches :: "'a list list"
  currentBatch :: "'a list"
  currentBatchSize :: nat

text \<open>\<open>if (currentBatch.length > 0) { batches.push(currentBatch); currentBatch = []; currentBatchSize = 0; }\<close>\<close>

definition closeBatch :: "('a, 'z) batchVars_scheme \<Rightarrow> ('a, 'z) batchVars_scheme" where
  "closeBatch s =
     (if currentBatch s \<noteq> []
      then s\<lparr>batches := batches s @ [currentBatch s], currentBatch := [], currentBatchSize := 0\<rparr>
      else s)"

text \<open>After the loop: \<open>if (currentBatch.length > 0) batches.push(currentBatch)\<close>.\<close>

definition finalBatches :: "('a, 'z) batchVars_scheme \<Rightarrow> 'a list list" where
  "finalBatches s = (if currentBatch s \<noteq> [] then batches s @ [currentBatch s] else batches s)"

subsection \<open>The pull-request script (index.js, lines 47-88)\<close>

text \<open>
  A record of the GitHub list of changed files.  \<open>patch\<close> is absent for a binary file;
  \<open>!f.patch\<close> also holds for the empty string.
\<close>

record prFile =
  filename :: string
  patch :: "string option"
  additions :: int

definition MAX_DIFF_LENGTH :: nat where
  "MAX_DIFF_LENGTH = 20000"

definition hasPatch :: "prFile \<Rightarrow> bool" where
  "hasPatch f = (case patch f of None \<Rightarrow> False | Some p \<Rightarrow> p \<noteq> [])"

definition patchLength :: "prFile \<Rightarrow> nat" where
  "patchLength f = (case patch f of None \<Rightarrow> 0 | Some p \<Rightarrow> length p)"

definition patchText :: "prFile \<Rightarrow> string" where
  "patchText f = (case patch f of None \<Rightarrow> [] | Some p \<Rightarrow> p)"

record prStats = "prFile batchVars" +
  linesAdded :: int
  testsChanged :: bool
  licenseComment :: bool

definition prInit :: prStats where
  "prInit = \<lparr>batches = [], currentBatch = [], currentBatchSize = 0,
             linesAdded = 0, testsChanged = False, licenseComment = False\<rparr>"

definition prStep :: "prStats \<Rightarrow> prFile \<Rightarrow> prStats" where
  "prStep s f =
     (if \<not> hasPatch f then s
      else let s1 = (if currentBatchSize s + patchLength f > MAX_DIFF_LENGTH then closeBatch s else s)
           in s1\<lparr>currentBatch := currentBatch s1 @ [f],
                 currentBatchSize := currentBatchSize s1 + patchLength f,
                 linesAdded := linesAdded s1 + additions f,
                 testsChanged := (testsChanged s1 \<or> isTestPath (filename f)),
                 licenseComment := (licenseComment s1 \<or> hasAddedLicense (patchText f))\<rparr>)"

definition prScan :: "prFile list \<Rightarrow> prStats" where
  "prScan files = foldl prStep prInit files"

definition prBatches :: "prFile list \<Rightarrow> prFile list list" where
  "prBatches files = finalBatches (prScan files)"

subsection \<open>The repository script: analyzeCodeBatches (index.js, lines 480-569)\<close>

text \<open>
  What the contents request gave for a file of \<open>codeFiles\<close>: it threw, or it returned an
  encoding and a content (here already decoded).  A content whose encoding is not
  \<open>base64\<close> is passed over in silence.
\<close>

datatype fetchResult = FetchError string | FileContent string string

record codeFile =
  filePath :: string
  response :: fetchResult

record batchEntry =
  path :: string
  content :: string

definition MAX_BATCH_SIZE :: nat where
  "MAX_BATCH_SIZE = 800000"

definition MAX_FILES_PER_BATCH :: nat where
  "MAX_FILES_PER_BATCH = 25"

definition truncationMark :: string where
  "truncationMark = CHR 0x0A # ''... (content truncated for analysis)''"

definition truncatedContent :: "string \<Rightarrow> string" where
  "truncatedContent c = (if length c > 12000 then take 12000 c @ truncationMark else c)"

text \<open>\<open>content.split('\n').length\<close>\<close>

definition lineCount :: "string \<Rightarrow> nat" where
  "lineCount c = Suc (length (filter (\<lambda>x. x = CHR 0x0A) c))"

record repoStats = "batchEntry batchVars" +
  totalFiles :: nat
  totalLines :: nat
  licenseDetected :: bool
  testFilesFound :: bool
  analyzed_files :: "(string \<times> (string + nat)) list"

definition repoInit :: repoStats where
  "repoInit = \<lparr>batches = [], currentBatch = [], currentBatchSize = 0,
               totalFiles = 0, totalLines = 0, licenseDetected = False, testFilesFound = False,
               analyzed_files = []\<rparr>"

definition analyzable :: "codeFile \<Rightarrow> bool" where
  "analyzable f = (case response f of FetchError m \<Rightarrow> False | FileContent enc c \<Rightarrow> enc = ''base64'')"

definition fileText :: "codeFile \<Rightarrow> string" where
  "fileText f = (case response f of FetchError m \<Rightarrow> [] | FileContent enc c \<Rightarrow> c)"

definition entryOf :: "codeFile \<Rightarrow> batchEntry" where
  "entryOf f = \<lparr>path = filePath f, content = truncatedContent (fileText f)\<rparr>"

definition repoStep :: "repoStats \<Rightarrow> codeFile \<Rightarrow> repoStats" where
  "repoStep s f =
     (case response f of
        FetchError m \<Rightarrow> s\<lparr>analyzed_files := analyzed_files s @ [(filePath f, Inl m)]\<rparr>
      | FileContent enc c \<Rightarrow>
          if enc \<noteq> ''base64'' then s
          else let s1 = s\<lparr>totalLines := totalLines s + lineCount c,
                           totalFiles := totalFiles s + 1,
                           licenseDetected := (licenseDetected s \<or> hasLicenseText c),
                           testFilesFound := (testFilesFound s \<or> isTestPath (filePath f)),
                           analyzed_files := analyzed_files s @ [(filePath f, Inr (lineCount c))]\<rparr>;
                   s2 = (if currentBatchSize s1 + length c > MAX_BATCH_SIZE
                            \<or> length (currentBatch s1) \<ge> MAX_FILES_PER_BATCH
                         then closeBatch s1 else s1)
               in s2\<lparr>currentBatch := currentBatch s2 @ [\<lparr>path = filePath f, content = truncatedContent c\<rparr>],
                     currentBatchSize := currentBatchSize s2 + length (truncatedContent c)\<rparr>)"

definition repoScan :: "codeFile list \<Rightarrow> repoStats" where
  "repoScan files = foldl repoStep repoInit files"

definition repoBatches :: "codeFile list \<Rightarrow> batchEntry list list" where
  "repoBatches files = finalBatches (repoScan files)"

section \<open>Analysis of the batches\<close>

text \<open>
  The classifier is outside the scripts.  A call either returns a verdict (the parsed
  arguments of the tool call) or throws; which of the two, and with what, is a parameter
  of the model, given per batch index and batch.
\<close>

record verdict =
  ai_prob :: real
  patterns_detected :: "string list"
  code_quality :: string
  rationale :: string

record appVerdict = verdict +
  tokens_used :: nat

datatype 'v classifierResult = Verdict 'v | ClassifierError string

text \<open>What a run did to the outside, in order.\<close>

datatype effect =
    ClassifierCall nat
  | RulesFileRead
  | EvalCall string
  | PolicyEvaluation
  | ReviewPost
  | SlackWebhook

record prTotals =
  overallAiProb :: real
  allRationales :: "string list"

definition verdictLine :: "nat \<Rightarrow> nat \<Rightarrow> string \<Rightarrow> string" where
  "verdictLine i n r = ''Batch '' @ showNat (i + 1) @ '' ('' @ showNat n @ '' files): '' @ r"

definition errorLine :: "nat \<Rightarrow> string \<Rightarrow> string" where
  "errorLine i m = ''Batch '' @ showNat (i + 1) @ '': Error during analysis - '' @ m"

subsection \<open>The pull-request script (index.js, lines 92-158)\<close>

text \<open>
  The call of the classifier is not inside a \<open>try\<close>: when it throws, the script ends
  there.  The weight of a batch divides by \<open>files.length\<close>, the number of all files of
  the pull request.
\<close>

fun prAnalyze ::
  "(nat \<Rightarrow> prFile list \<Rightarrow> 'v verdict_scheme classifierResult) \<Rightarrow> nat \<Rightarrow> nat \<Rightarrow> prFile list list
   \<Rightarrow> prTotals \<Rightarrow> effect list \<Rightarrow> effect list \<times> (string + prTotals)" where
  "prAnalyze cl n i [] acc tr = (tr, Inr acc)"
| "prAnalyze cl n i (b # bs) acc tr =
     (case cl i b of
        ClassifierError m \<Rightarrow> (tr @ [ClassifierCall i], Inl m)
      | Verdict v \<Rightarrow>
          prAnalyze cl n (Suc i) bs
            (acc\<lparr>overallAiProb := overallAiProb acc + ai_prob v * (real (length b) / real n),
                 allRationales := allRationales acc @ [''Batch '' @ showNat (i + 1) @ '': '' @ rationale v]\<rparr>)
            (tr @ [ClassifierCall i]))"

definition prAnalysis ::
  "(nat \<Rightarrow> prFile list \<Rightarrow> 'v verdict_scheme classifierResult) \<Rightarrow> prFile list
   \<Rightarrow> effect list \<times> (string + prTotals)" where
  "prAnalysis cl files =
     prAnalyze cl (length files) 0 (prBatches files) \<lparr>overallAiProb = 0, allRationales = []\<rparr> []"

subsection \<open>The repository script: analyzeCodeBatches (index.js, lines 583-700)\<close>

record repoTotals = prTotals +
  allPatterns :: "string list"
  overallCodeQuality :: string

text \<open>\<open>if (!allPatterns.some(p => p === pattern)) allPatterns.push(pattern)\<close>, for each pattern.\<close>

definition addPatterns :: "string list \<Rightarrow> string list \<Rightarrow> string list" where
  "addPatterns all new = foldl (\<lambda>acc p. if p \<in> set acc then acc else acc @ [p]) all new"

text \<open>
  Lines 681-691.  The second line of the condition is written without parentheses around
  its \<open>||\<close>, so it reads \<open>(a && b) || c\<close>.
\<close>

definition repoQuality :: "nat \<Rightarrow> string \<Rightarrow> string \<Rightarrow> string" where
  "repoQuality i overall cq =
     (if i = 0 \<or> overall = ''Unknown'' then cq
      else if (cq = ''poor'' \<and> overall \<noteq> ''poor'')
            \<or> ((cq = ''average'' \<and> overall = ''good'') \<or> overall = ''excellent'')
            \<or> (cq = ''good'' \<and> overall = ''excellent'')
      then cq
      else overall)"

definition repoAnalyzeStep ::
  "(nat \<Rightarrow> batchEntry list \<Rightarrow> 'v verdict_scheme classifierResult) \<Rightarrow> nat \<Rightarrow> nat \<Rightarrow> batchEntry list
   \<Rightarrow> repoTotals \<Rightarrow> repoTotals" where
  "repoAnalyzeStep cl n i b acc =
     (case cl i b of
        ClassifierError m \<Rightarrow> acc\<lparr>allRationales := allRationales acc @ [errorLine i m]\<rparr>
      | Verdict v \<Rightarrow>
          acc\<lparr>overallAiProb := overallAiProb acc + ai_prob v * (real (length b) / real n),
              allPatterns := addPatterns (allPatterns acc) (patterns_detected v),
              allRationales := allRationales acc @ [verdictLine i (length b) (rationale v)],
              overallCodeQuality := repoQuality i (overallCodeQuality acc) (code_quality v)\<rparr>)"

fun repoAnalyze ::
  "(nat \<Rightarrow> batchEntry list \<Rightarrow> 'v verdict_scheme classifierResult) \<Rightarrow> nat \<Rightarrow> nat
   \<Rightarrow> batchEntry list list \<Rightarrow> repoTotals \<Rightarrow> repoTotals" where
  "repoAnalyze cl n i [] acc = acc"
| "repoAnalyze cl n i (b # bs) acc = repoAnalyze cl n (Suc i) bs (repoAnalyzeStep cl n i b acc)"

definition repoTotalsInit :: repoTotals where
  "repoTotalsInit = \<lparr>overallAiProb = 0, allRationales = [], allPatterns = [],
                     overallCodeQuality = ''Unknown''\<rparr>"

text \<open>The weights divide by \<open>totalFiles\<close>, the number of files that were put into batches.\<close>

definition repoAnalysis ::
  "(nat \<Rightarrow> batchEntry list \<Rightarrow> 'v verdict_scheme classifierResult) \<Rightarrow> codeFile list \<Rightarrow> repoTotals" where
  "repoAnalysis cl files =
     repoAnalyze cl (totalFiles (repoScan files)) 0 (repoBatches files) repoTotalsInit"

subsection \<open>The GitHub App script: analyzePullRequest (lines 107-156 and 207-228 of its file)\<close>

text \<open>
  \<open>qualityRank[q] || 0\<close>.  The table is an object literal, so a name that every object
  inherits from \<open>Object.prototype\<close> is found as well: the value is then a function (or,
  for \<open>__proto__\<close>, the prototype object), which is truthy, and \<open>|| 0\<close> does not replace
  it.  In a comparison with \<open><\<close> such a value is converted to a string, given here as
  Node.js prints it.
\<close>

definition qualityRank :: "(string \<times> nat) list" where
  "qualityRank = [(''poor'', 0), (''average'', 1), (''good'', 2), (''excellent'', 3)]"

definition nativeFunction :: "string \<Rightarrow> string" where
  "nativeFunction name = ''function '' @ name @ ''() { [native code] }''"

definition objectPrototype :: "(string \<times> string) list" where
  "objectPrototype =
     [(''constructor'', nativeFunction ''Object''),
      (''__defineGetter__'', nativeFunction ''__defineGetter__''),
      (''__defineSetter__'', nativeFunction ''__defineSetter__''),
      (''hasOwnProperty'', nativeFunction ''hasOwnProperty''),
      (''__lookupGetter__'', nativeFunction ''__lookupGetter__''),
      (''__lookupSetter__'', nativeFunction ''__lookupSetter__''),
      (''isPrototypeOf'', nativeFunction ''isPrototypeOf''),
      (''propertyIsEnumerable'', nativeFunction ''propertyIsEnumerable''),
      (''toString'', nativeFunction ''toString''),
      (''valueOf'', nativeFunction ''valueOf''),
      (''__proto__'', ''[object Object]''),
      (''toLocaleString'', nativeFunction ''toLocaleString'')]"

datatype jsRank = Rank nat | Inherited string

definition rankOrZero :: "string \<Rightarrow> jsRank" where
  "rankOrZero q =
     (case map_of qualityRank q of
        Some r \<Rightarrow> Rank r
      | None \<Rightarrow> (case map_of objectPrototype q of Some s \<Rightarrow> Inherited s | None \<Rightarrow> Rank 0))"

text \<open>The order of strings by code units.\<close>

fun strLess :: "string \<Rightarrow> string \<Rightarrow> bool" where
  "strLess [] [] = False"
| "strLess [] (y # ys) = True"
| "strLess (x # xs) [] = False"
| "strLess (x # xs) (y # ys) =
     ((of_char x :: nat) < of_char y \<or> (x = y \<and> strLess xs ys))"

text \<open>
  \<open>a < b\<close>: two numbers compare as numbers; a number and a string that is not a numeral
  compare as \<open>NaN\<close>, which is never less; two strings compare as strings.
\<close>

fun jsLess :: "jsRank \<Rightarrow> jsRank \<Rightarrow> bool" where
  "jsLess (Rank a) (Rank b) = (a < b)"
| "jsLess (Inherited s) (Inherited t) = strLess s t"
| "jsLess (Rank a) (Inherited t) = False"
| "jsLess (Inherited s) (Rank b) = False"

text \<open>
  The variables declared around a function that its body can name, with their values.
  The file is a module, so its code is strict: reading a name that is not declared throws
  a \<open>ReferenceError\<close>, and so does assigning to one.
\<close>

type_synonym scope = "string \<rightharpoonup> string"

definition readVar :: "scope \<Rightarrow> string \<Rightarrow> string + string" where
  "readVar vars x = (case vars x of None \<Rightarrow> Inl (x @ '' is not defined'') | Some v \<Rightarrow> Inr v)"

definition assignVar :: "scope \<Rightarrow> string \<Rightarrow> string \<Rightarrow> string + scope" where
  "assignVar vars x v = (case vars x of None \<Rightarrow> Inl (x @ '' is not defined'') | Some old \<Rightarrow> Inr (vars(x \<mapsto> v)))"

text \<open>
  Lines 207-228, run with the variables \<open>vars\<close> in scope: the error that the call throws,
  or the variables after it.  The condition of line 209 reads \<open>overallCodeQuality\<close> only
  when \<open>batchIndex\<close> is not 0.
\<close>

definition updateOverallCodeQuality :: "scope \<Rightarrow> nat \<Rightarrow> string \<Rightarrow> string + scope" where
  "updateOverallCodeQuality vars batchIndex batchQuality =
     (if batchIndex = 0 then assignVar vars ''overallCodeQuality'' batchQuality
      else case readVar vars ''overallCodeQuality'' of
             Inl e \<Rightarrow> Inl e
           | Inr overallQuality \<Rightarrow>
               if overallQuality = ''Unknown'' then assignVar vars ''overallCodeQuality'' batchQuality
               else let currentRank = rankOrZero overallQuality;
                        batchRank = rankOrZero batchQuality
                    in if jsLess batchRank currentRank
                       then assignVar vars ''overallCodeQuality'' batchQuality
                       else Inr vars)"

text \<open>
  The function is declared in the body of \<open>analyzePullRequest\<close> after the \<open>try\<close> statement
  (line 208), while \<open>let overallCodeQuality\<close> stands inside the block of that \<open>try\<close>
  (line 111): the variable of the loop is not in the scope of the function, and no other
  variable of that name is declared in the file.  \<open>overallCodeQuality\<close> is the only name
  in the body of the function that the function does not declare itself; the variables
  that are in scope around it (\<open>reportData\<close>, \<open>tokenCount\<close>, \<open>startTime\<close> and those of the
  module) are not named in the body, and are left out.
\<close>

definition functionScope :: scope where
  "functionScope = Map.empty"

record appTotals = repoTotals +
  tokenCount :: nat

text \<open>\<open>Math.ceil(batchSize / 4)\<close>, \<open>batchSize\<close> being the sum of the lengths of the patches.\<close>

definition batchTokenEstimate :: "prFile list \<Rightarrow> nat" where
  "batchTokenEstimate b = (sum_list (map patchLength b) + 3) div 4"

text \<open>
  The body of the loop (lines 115-156).  \<open>batchSizes\<close> and \<open>batchTokens\<close> are only
  written, and left out.  The \<open>try\<close> of lines 126-155 holds the call of the classifier
  and, after the verdict was added to the totals, the call of \<open>updateOverallCodeQuality\<close>
  (line 146): an error thrown by either is caught by the same \<open>catch\<close>, which pushes the
  error line of the batch.  The variable \<open>overallCodeQuality\<close> of the loop is written
  nowhere else.
\<close>

definition appAnalyzeStep ::
  "(nat \<Rightarrow> prFile list \<Rightarrow> appVerdict classifierResult) \<Rightarrow> nat \<Rightarrow> nat \<Rightarrow> prFile list
   \<Rightarrow> appTotals \<Rightarrow> appTotals" where
  "appAnalyzeStep cl n i b acc =
     (case cl i b of
        ClassifierError m \<Rightarrow> acc\<lparr>allRationales := allRationales acc @ [errorLine i m]\<rparr>
      | Verdict v \<Rightarrow>
          let acc1 = acc\<lparr>tokenCount := tokenCount acc + (if tokens_used v \<noteq> 0 then tokens_used v else batchTokenEstimate b),
                         overallAiProb := overallAiProb acc + ai_prob v * (real (length b) / real n),
                         allPatterns := addPatterns (allPatterns acc) (patterns_detected v),
                         allRationales := allRationales acc @ [verdictLine i (length b) (rationale v)]\<rparr>
          in case updateOverallCodeQuality functionScope i (code_quality v) of
               Inl e \<Rightarrow> acc1\<lparr>allRationales := allRationales acc1 @ [errorLine i e]\<rparr>
             | Inr vars \<Rightarrow> acc1)"

fun appAnalyze ::
  "(nat \<Rightarrow> prFile list \<Rightarrow> appVerdict classifierResult) \<Rightarrow> nat \<Rightarrow> nat
   \<Rightarrow> prFile list list \<Rightarrow> appTotals \<Rightarrow> appTotals" where
  "appAnalyze cl n i [] acc = acc"
| "appAnalyze cl n i (b # bs) acc = appAnalyze cl n (Suc i) bs (appAnalyzeStep cl n i b acc)"

definition appTotalsInit :: appTotals where
  "appTotalsInit = \<lparr>overallAiProb = 0, allRationales = [], allPatterns = [],
                    overallCodeQuality = ''Unknown'', tokenCount = 0\<rparr>"

text \<open>Sample classifiers: the answers are scripted per batch index.\<close>

definition sampleVerdict :: "real \<Rightarrow> string \<Rightarrow> appVerdict" where
  "sampleVerdict p q =
     \<lparr>ai_prob = p, patterns_detected = [], code_quality = q, rationale = ''r'', tokens_used = 0\<rparr>"

definition scripted :: "appVerdict classifierResult list \<Rightarrow> nat \<Rightarrow> 'b \<Rightarrow> appVerdict classifierResult" where
  "scripted answers i b = (if i < length answers then answers ! i else ClassifierError ''no answer'')"

section \<open>Rules\<close>

text \<open>\<open>s.split(sep)\<close> for a non-empty separator, and \<open>parts.join(sep)\<close>.\<close>

fun splitAux :: "string \<Rightarrow> string \<Rightarrow> string \<Rightarrow> string list" where
  "splitAux sep piece [] = [rev piece]"
| "splitAux sep piece (c # cs) =
     (if sep \<noteq> [] \<and> prefix sep (c # cs)
      then rev piece # splitAux sep [] (drop (length sep) (c # cs))
      else splitAux sep (c # piece) cs)"

definition splitStr :: "string \<Rightarrow> string \<Rightarrow> string list" where
  "splitStr sep s = splitAux sep [] s"

fun joinWith :: "string \<Rightarrow> string list \<Rightarrow> string" where
  "joinWith sep [] = []"
| "joinWith sep [x] = x"
| "joinWith sep (x # y # ys) = x @ sep @ joinWith sep (y # ys)"

text \<open>
  A rule as the loops read it.  The condition is the field \<open>when\<close> in the pull-request
  script and the field \<open>condition\<close> in the repository script.
\<close>

record rule =
  name :: string
  condition :: string
  severity :: string
  message :: string

subsection \<open>parseRulesFromText (index.js, lines 261-284)\<close>

text \<open>
  The object \<open>rule\<close> of a section is a map from keys to values.  A field is truthy when
  it is present and not the empty string.
\<close>

definition ruleLine :: "(string \<rightharpoonup> string) \<Rightarrow> string \<Rightarrow> (string \<rightharpoonup> string)" where
  "ruleLine r line =
     (if trim line \<noteq> [] \<and> \<not> prefix ''#'' line
      then (case splitStr ''='' line of
              [] \<Rightarrow> r
            | key # valueParts \<Rightarrow> r(trim key \<mapsto> trim (joinWith ''='' valueParts)))
      else r)"

definition field :: "(string \<rightharpoonup> string) \<Rightarrow> string \<Rightarrow> string" where
  "field r k = (case r k of None \<Rightarrow> [] | Some v \<Rightarrow> v)"

definition ruleOfSection :: "string \<Rightarrow> rule option" where
  "ruleOfSection section =
     (let r = foldl ruleLine Map.empty (splitStr [CHR 0x0A] (trim section))
      in if field r ''name'' \<noteq> [] \<and> field r ''when'' \<noteq> [] \<and> field r ''severity'' \<noteq> []
            \<and> field r ''message'' \<noteq> []
         then Some \<lparr>name = field r ''name'', condition = field r ''when'',
                    severity = field r ''severity'', message = field r ''message''\<rparr>
         else None)"

definition parseRulesFromText :: "string \<Rightarrow> rule list" where
  "parseRulesFromText text = List.map_filter ruleOfSection (tl (splitStr ''[rule]'' text))"

subsection \<open>parseHumanReadableRules (index.js, lines 727-777)\<close>

definition conditionOfTitle :: "string \<Rightarrow> string" where
  "conditionOfTitle title =
     (if title = ''High AI Confidence'' then ''ai_prob > 0.8''
      else if title = ''Medium AI Confidence'' then ''ai_prob > 0.6 && !license_comment''
      else if title = ''Likely AI Generated'' then ''ai_prob > 0.4 && !license_comment''
      else if title = ''Poor Comment Quality'' then ''ai_prob > 0.5''
      else if title = ''Grammar Issues'' then ''ai_prob > 0.3''
      else if title = ''Missing Context'' then ''ai_prob > 0.4 && lines_added > 100''
      else if title = ''Missing Tests'' then ''ai_prob > 0.5 && !tests_changed && lines_added > 50''
      else if title = ''Excessive Code'' then ''lines_added > 300 && ai_prob > 0.5''
      else [])"

definition humanRuleOfSection :: "string \<Rightarrow> rule option" where
  "humanRuleOfSection section =
     (case splitStr [CHR 0x0A] (trim section) of
        [] \<Rightarrow> None
      | first # rest \<Rightarrow>
          let title = trim first;
              content = trim (joinWith '' '' rest);
              cond = conditionOfTitle title
          in if cond \<noteq> []
             then Some \<lparr>name = title, condition = cond,
                        severity = (if strIncludes content ''flag this as an error'' then ''error'' else ''warning''),
                        message = content\<rparr>
             else None)"

definition parseHumanReadableRules :: "string \<Rightarrow> rule list" where
  "parseHumanReadableRules text = List.map_filter humanRuleOfSection (tl (splitStr ''## '' text))"

subsection \<open>The rule loops (index.js, lines 169-181 and 964-976)\<close>

text \<open>
  The context object of the loops.  (The field \<open>ai_prob\<close> is named \<open>ctx_ai_prob\<close> here,
  apart from the field of a verdict.)
\<close>

record evalCtx =
  ctx_ai_prob :: real
  lines_added :: int
  tests_changed :: bool
  license_comment :: bool

text \<open>
  Both loops hand the text of the condition to \<open>eval\<close>, the interpreter of the host.
  What the interpreter does with a text is a parameter of the model: it completes with a
  value, of which the loop reads the truthiness, or it throws.  An effect of the
  evaluated text on the variables of the script or on the process is outside the model.
\<close>

datatype evalResult = Completed bool | Threw string

fun evalRules ::
  "(string \<Rightarrow> evalCtx \<Rightarrow> evalResult) \<Rightarrow> evalCtx \<Rightarrow> rule list \<Rightarrow> string list \<times> string list
   \<Rightarrow> effect list \<Rightarrow> effect list \<times> (string + string list \<times> string list)" where
  "evalRules ev ctx [] fw tr = (tr, Inr fw)"
| "evalRules ev ctx (r # rs) fw tr =
     (case ev (condition r) ctx of
        Threw m \<Rightarrow> (tr @ [EvalCall (condition r)], Inl m)
      | Completed triggered \<Rightarrow>
          evalRules ev ctx rs
            (if triggered
             then (if severity r = ''error''
                   then (fst fw @ [trim (message r)], snd fw)
                   else (fst fw, snd fw @ [trim (message r)]))
             else fw)
            (tr @ [EvalCall (condition r)]))"

section \<open>The run of the pull-request script (index.js, lines 1-287)\<close>

text \<open>
  \<open>x.toFixed(1)\<close>, as the number of tenths that the printed text stands for:
  the nearest tenth, a tie going away from zero.
\<close>

definition toFixed1 :: "real \<Rightarrow> int" where
  "toFixed1 x = (if x < 0 then - \<lfloor>(- x) * 10 + 1 / 2\<rfloor> else \<lfloor>x * 10 + 1 / 2\<rfloor>)"

text \<open>
  What surrounds a run: the classifier, the text of \<open>scripts/review.txt\<close> (absent when
  reading it throws), the interpreter, and whether \<open>new URL(slackWebhookUrl)\<close> succeeds.
\<close>

record prEnv =
  classifier :: "nat \<Rightarrow> prFile list \<Rightarrow> appVerdict classifierResult"
  reviewTxt :: "string option"
  jsEval :: "string \<Rightarrow> evalCtx \<Rightarrow> evalResult"
  webhookUrlParses :: bool

text \<open>
  A run ends by an exception that nothing catches, or by leaving the script: with
  \<open>process.exit(1)\<close> when there are failures, with code 0 at the end of the file otherwise.
\<close>

datatype stage = AtClassifier | AtRulesFile | AtEval | AtWebhookUrl

datatype ending = Crashed stage string | Exited nat

record prRun =
  trace :: "effect list"
  ending :: ending

definition prContext :: "prFile list \<Rightarrow> prTotals \<Rightarrow> evalCtx" where
  "prContext files totals =
     \<lparr>ctx_ai_prob = overallAiProb totals,
      lines_added = linesAdded (prScan files),
      tests_changed = testsChanged (prScan files),
      license_comment = licenseComment (prScan files)\<rparr>"

text \<open>
  \<open>const score = (overallAiProb * 100).toFixed(1)\<close> (line 161), as the number of tenths of
  a percent that the text \<open>score\<close> stands for, in exact arithmetic.  The script computes
  the sum and the product in doubles, so its score is this one wherever they are exact
  (as at the probabilities 0, 1/2 and 1 of a single batch) and can differ from it
  by a tenth elsewhere.
\<close>

definition prScore :: "prTotals \<Rightarrow> int" where
  "prScore totals = toFixed1 (overallAiProb totals * 100)"

definition exitCode :: "string list \<Rightarrow> nat" where
  "exitCode failures = (if failures \<noteq> [] then 1 else 0)"

text \<open>
  Lines 211-259 and 286-287: the review, the notification, the exit.  \<open>score\<close> is the
  number that the text \<open>score\<close> of line 161 stands for, in tenths of a percent, so that
  \<open>parseFloat(score) > 55\<close> is \<open>550 < score\<close>.
\<close>

definition prPublish :: "prEnv \<Rightarrow> int \<Rightarrow> string list \<Rightarrow> effect list \<Rightarrow> prRun" where
  "prPublish env score failures tr =
     (if 550 < score
      then (if webhookUrlParses env
            then \<lparr>trace = tr @ [ReviewPost, SlackWebhook], ending = Exited (exitCode failures)\<rparr>
            else \<lparr>trace = tr @ [ReviewPost], ending = Crashed AtWebhookUrl ''Invalid URL''\<rparr>)
      else \<lparr>trace = tr @ [ReviewPost], ending = Exited (exitCode failures)\<rparr>)"

text \<open>
  The script, for any way \<open>scoreOf\<close> in which line 161 turns the totals of the analysis
  into the score.
\<close>

definition prScriptWith :: "(prTotals \<Rightarrow> int) \<Rightarrow> prEnv \<Rightarrow> prFile list \<Rightarrow> prRun" where
  "prScriptWith scoreOf env files =
     (case prAnalysis (classifier env) files of
        (tr, Inl m) \<Rightarrow> \<lparr>trace = tr, ending = Crashed AtClassifier m\<rparr>
      | (tr, Inr totals) \<Rightarrow>
          (case reviewTxt env of
             None \<Rightarrow> \<lparr>trace = tr @ [RulesFileRead], ending = Crashed AtRulesFile ''ENOENT''\<rparr>
           | Some text \<Rightarrow>
               (case evalRules (jsEval env) (prContext files totals) (parseRulesFromText text) ([], [])
                       (tr @ [RulesFileRead]) of
                  (tr2, Inl m) \<Rightarrow> \<lparr>trace = tr2, ending = Crashed AtEval m\<rparr>
                | (tr2, Inr (failures, warnings)) \<Rightarrow> prPublish env (scoreOf totals) failures tr2)))"

text \<open>The script with the score of exact arithmetic.\<close>

definition prScript :: "prEnv \<Rightarrow> prFile list \<Rightarrow> prRun" where
  "prScript env files = prScriptWith prScore env files"



text \<open>The interpreter completes on the condition of a rule.\<close>

definition completes :: "(string \<Rightarrow> evalCtx \<Rightarrow> evalResult) \<Rightarrow> evalCtx \<Rightarrow> rule \<Rightarrow> bool" where
  "completes ev ctx r = (case ev (condition r) ctx of Completed t \<Rightarrow> True | Threw m \<Rightarrow> False)"

text \<open>The conditions that parseHumanReadableRules can give a rule.\<close>

definition fixedConditions :: "string list" where
  "fixedConditions =
     [''ai_prob > 0.8'', ''ai_prob > 0.6 && !license_comment'', ''ai_prob > 0.4 && !license_comment'',
      ''ai_prob > 0.5'', ''ai_prob > 0.3'', ''ai_prob > 0.4 && lines_added > 100'',
      ''ai_prob > 0.5 && !tests_changed && lines_added > 50'', ''lines_added > 300 && ai_prob > 0.5'']"

text \<open>
  The rules that a loop gets to: those before the first rule on whose condition the
  interpreter throws, and that rule.
\<close>

definition evaluated :: "(string \<Rightarrow> evalCtx \<Rightarrow> evalResult) \<Rightarrow> evalCtx \<Rightarrow> rule list \<Rightarrow> rule list" where
  "evaluated ev ctx rs = takeWhile (completes ev ctx) rs @ take 1 (dropWhile (completes ev ctx) rs)"

section \<open>The run of the GitHub App script: analyzePullRequest (lines 52-205 of its file)\<close>

text \<open>
  The file of this script leaves out several of its functions.  Those that the run calls
  are parameters of the model: \<open>initializeReportData\<close>, \<open>filterCodeFiles\<close>,
  \<open>organizeFilesIntoBatches\<close> (batches and the statistics \<open>linesAdded\<close>,
  \<open>licenseComment\<close>, \<open>testsChanged\<close>) and \<open>evaluateAgainstPolicyRules\<close> (failures,
  warnings and \<open>aiStatus\<close>); \<open>postReviewToPR\<close> and \<open>sendSlackNotification\<close> are taken to
  return.  Reading the event and listing the files gives the files or throws.
\<close>

record appReport =
  analysis_status :: string
  error :: "string option"
  files_total :: nat
  files_filtered :: nat
  estimated_tokens :: nat
  total_lines :: int
  license_detected :: bool
  tests_found :: bool
  findings :: "appTotals option"
  ai_probability :: "int option"
  failures :: "string list"
  warnings :: "string list"
  ai_status :: string

record appEnv =
  initializeReportData :: appReport
  prFiles :: "string + prFile list"
  filterCodeFiles :: "prFile list \<Rightarrow> prFile list"
  organizeFilesIntoBatches :: "prFile list \<Rightarrow> prFile list list \<times> (int \<times> bool \<times> bool)"
  analyzeFileBatch :: "nat \<Rightarrow> prFile list \<Rightarrow> appVerdict classifierResult"
  evaluateAgainstPolicyRules :: "appReport \<Rightarrow> string list \<times> string list \<times> string"

record appRun =
  reportData :: appReport
  effects :: "effect list"

text \<open>
  Lines 91-191: what the run does when there are files to analyze.  The aggregate of the
  loop is kept whole in \<open>findings\<close>; \<open>ai_probability\<close> is \<open>overallAiProb.toFixed(1)\<close> in
  tenths.  Each batch is one call of the classifier.
\<close>

definition appAnalyzeFiles :: "appEnv \<Rightarrow> appReport \<Rightarrow> prFile list \<Rightarrow> appRun" where
  "appAnalyzeFiles env r codeFiles =
     (case organizeFilesIntoBatches env codeFiles of
        (bs, (lines, license, tests)) \<Rightarrow>
          let totals = appAnalyze (analyzeFileBatch env) (length codeFiles) 0 bs appTotalsInit;
              r1 = r\<lparr>estimated_tokens := (sum_list (map patchLength codeFiles) + 3) div 4,
                      total_lines := lines, license_detected := license, tests_found := tests,
                      findings := Some totals,
                      ai_probability := Some (toFixed1 (overallAiProb totals))\<rparr>
          in (case evaluateAgainstPolicyRules env r1 of
                (fs, ws, st) \<Rightarrow>
                  \<lparr>reportData = r1\<lparr>failures := fs, warnings := ws, ai_status := st,
                                      analysis_status := ''completed''\<rparr>,
                   effects = map ClassifierCall [0..<length bs]
                             @ [PolicyEvaluation, ReviewPost, SlackWebhook]\<rparr>))"

text \<open>Lines 52-205.  With no file left by the filter the function returns at once.\<close>

definition analyzePullRequest :: "appEnv \<Rightarrow> appRun" where
  "analyzePullRequest env =
     (case prFiles env of
        Inl m \<Rightarrow>
          \<lparr>reportData = (initializeReportData env)\<lparr>analysis_status := ''failed'', error := Some m\<rparr>,
           effects = [SlackWebhook]\<rparr>
      | Inr files \<Rightarrow>
          let codeFiles = filterCodeFiles env files;
              r = (initializeReportData env)\<lparr>files_total := length files,
                                               files_filtered := length codeFiles\<rparr>
          in if length codeFiles = 0
             then \<lparr>reportData = r\<lparr>analysis_status := ''skipped'',
                                    error := Some ''No code files to analyze after filtering''\<rparr>,
                   effects = []\<rparr>
             else appAnalyzeFiles env r codeFiles)"

subsection \<open>Sample surroundings\<close>

text \<open>A configuration with one rule whose condition calls a function.\<close>

definition sampleReviewTxt :: string where
  "sampleReviewTxt =
     ''# rules'' @ [CHR 0x0A] @ ''[rule]'' @ [CHR 0x0A] @ ''name = calls'' @ [CHR 0x0A]
     @ ''when = Math.max(1, 2)'' @ [CHR 0x0A] @ ''severity = error'' @ [CHR 0x0A]
     @ ''message = m '' @ [CHR 0x0A]"

text \<open>A configuration with one rule of severity \<open>warning\<close>.\<close>

definition warningReviewTxt :: string where
  "warningReviewTxt =
     ''[rule]'' @ [CHR 0x0A] @ ''name = tests'' @ [CHR 0x0A]
     @ ''when = !ctx.tests_changed'' @ [CHR 0x0A] @ ''severity = warning'' @ [CHR 0x0A]
     @ ''message = no tests'' @ [CHR 0x0A]"

text \<open>An interpreter that agrees with Node.js on three texts, and throws on the others.\<close>

definition sampleEval :: "string \<Rightarrow> evalCtx \<Rightarrow> evalResult" where
  "sampleEval text ctx =
     (if text = ''Math.max(1, 2)'' then Completed True
      else if text = ''!ctx.tests_changed'' then Completed (\<not> tests_changed ctx)
      else if text = ''ctx.ai_prob > 0.8'' then Completed (0.8 < ctx_ai_prob ctx)
      else Threw ''SyntaxError'')"

text \<open>
  The interpreter at line 972 of \<open>index.js\<close>, on the eight fixed conditions.  The text is
  evaluated in the body of the loop of analyzeRepository, where \<open>ctx\<close> is declared but
  none of \<open>ai_prob\<close>, \<open>lines_added\<close>, \<open>tests_changed\<close> and \<open>license_comment\<close> is, in the
  function or in the module: reading the first name of the text (\<open>lines_added\<close> in the
  last of the eight, \<open>ai_prob\<close> in the others) throws a \<open>ReferenceError\<close>.  Other texts
  do not reach that line; they are given to \<open>sampleEval\<close>.
\<close>

definition repoEval :: "string \<Rightarrow> evalCtx \<Rightarrow> evalResult" where
  "repoEval text ctx =
     (if text \<in> set fixedConditions
      then Threw ((if prefix ''lines_added'' text then ''lines_added'' else ''ai_prob'') @ '' is not defined'')
      else sampleEval text ctx)"

definition sampleEnv :: "appVerdict classifierResult list \<Rightarrow> string \<Rightarrow> prEnv" where
  "sampleEnv answers text =
     \<lparr>classifier = scripted answers, reviewTxt = Some text, jsEval = sampleEval,
      webhookUrlParses = True\<rparr>"

definition emptyReport :: appReport where
  "emptyReport =
     \<lparr>analysis_status = ''started'', error = None, files_total = 0, files_filtered = 0,
      estimated_tokens = 0, total_lines = 0, license_detected = False, tests_found = False,
      findings = None, ai_probability = None, failures = [], warnings = [], ai_status = []\<rparr>"

definition sampleAppEnv :: "prFile list \<Rightarrow> appEnv" where
  "sampleAppEnv files =
     \<lparr>initializeReportData = emptyReport, prFiles = Inr files,
      filterCodeFiles = filter hasPatch,
      organizeFilesIntoBatches = (\<lambda>fs. (prBatches fs, (0, False, False))),
      analyzeFileBatch = scripted [],
      evaluateAgainstPolicyRules = (\<lambda>r. ([], [], ''human''))\<rparr>"

definition sampleCtx :: evalCtx where
  "sampleCtx = \<lparr>ctx_ai_prob = 9 / 10, lines_added = 10, tests_changed = False, license_comment = False\<rparr>"

text \<open>A text for parseHumanReadableRules with two sections.\<close>

definition sampleHumanTxt :: string where
  "sampleHumanTxt =
     ''# Policy'' @ [CHR 0x0A] @ ''## High AI Confidence'' @ [CHR 0x0A]
     @ ''Above 80 percent, flag this as an error.'' @ [CHR 0x0A]
     @ ''## Excessive Code'' @ [CHR 0x0A] @ ''Too much.'' @ [CHR 0x0A]"

text \<open>Three scripted answers: a verdict, a failure, a verdict.\<close>

definition failingSecond :: "nat \<Rightarrow> 'b \<Rightarrow> appVerdict classifierResult" where
  "failingSecond =
     scripted [Verdict (sampleVerdict 1 ''good''), ClassifierError ''timeout'',
               Verdict (sampleVerdict 0 ''poor'')]"

subsection \<open>The order of the qualities\<close>

text \<open>
  The rank of a quality in the order poor < average < good < excellent, read from the
  table of \<open>updateOverallCodeQuality\<close>; a string that the table does not have ranks 0.
\<close>

definition qualityOrder :: "string \<Rightarrow> nat" where
  "qualityOrder q = (case map_of qualityRank q of Some r \<Rightarrow> r | None \<Rightarrow> 0)"

definition knownQualities :: "string list" where
  "knownQualities = map fst qualityRank"

text \<open>The qualities that the batches of a run reported, in order; a failed batch reports none.\<close>

fun reported ::
  "(nat \<Rightarrow> 'b \<Rightarrow> 'v verdict_scheme classifierResult) \<Rightarrow> nat \<Rightarrow> 'b list \<Rightarrow> string list" where
  "reported cl i [] = []"
| "reported cl i (b # bs) =
     (case cl i b of
        Verdict v \<Rightarrow> code_quality v # reported cl (Suc i) bs
      | ClassifierError m \<Rightarrow> reported cl (Suc i) bs)"

text \<open>
  The rollup in the words of the specification: the first quality seeds the aggregate,
  afterwards only a quality of strictly lower rank replaces it.  With no quality
  reported the aggregate is the placeholder it started as.
\<close>

definition worstQuality :: "string list \<Rightarrow> string" where
  "worstQuality qs =
     (case qs of
        [] \<Rightarrow> ''Unknown''
      | first # rest \<Rightarrow>
          foldl (\<lambda>overall q. if qualityOrder q < qualityOrder overall then q else overall) first rest)"

text \<open>One step of the rollup on strings that the table ranks by themselves.\<close>

definition rollStep :: "string \<Rightarrow> string \<Rightarrow> string" where
  "rollStep overall q =
     (if overall = ''Unknown'' then q
      else if qualityOrder q < qualityOrder overall then q else overall)"

subsection \<open>Limits of a batch, and sample inputs\<close>

text \<open>
  A batch is within a size limit when its sizes add up to at most the limit, or when it
  is a single file that is larger than the limit by itself.
\<close>

definition withinLimit :: "nat \<Rightarrow> ('a \<Rightarrow> nat) \<Rightarrow> 'a list \<Rightarrow> bool" where
  "withinLimit limit sz b =
     (sum_list (map sz b) \<le> limit \<or> (case b of [f] \<Rightarrow> limit < sz f | _ \<Rightarrow> False))"

text \<open>The size of a batch of analyzeCodeBatches as it is stored and sent: the contents after truncation.\<close>

definition storedSize :: "batchEntry list \<Rightarrow> nat" where
  "storedSize b = sum_list (map (\<lambda>e. length (content e)) b)"

text \<open>\<open>CONFIG.maxFilesPerBatch\<close> of the GitHub App script (line 22 of its file).\<close>

definition maxFilesPerBatch :: nat where
  "maxFilesPerBatch = 15"

definition plusFile :: prFile where
  "plusFile = \<lparr>filename = ''a.js'', patch = Some ''+'', additions = 1\<rparr>"

definition hugeFile :: prFile where
  "hugeFile = \<lparr>filename = ''huge.js'', patch = Some (replicate 20001 (CHR ''+'')), additions = 1\<rparr>"

definition binaryFile :: prFile where
  "binaryFile = \<lparr>filename = ''logo.png'', patch = None, additions = 0\<rparr>"

definition bigFile :: codeFile where
  "bigFile = \<lparr>filePath = ''big.js'', response = FileContent ''base64'' (replicate 800001 (CHR ''a''))\<rparr>"

definition smallFile :: codeFile where
  "smallFile = \<lparr>filePath = ''small.js'', response = FileContent ''base64'' ''b''\<rparr>"

text \<open>What the batching loops maintain.\<close>

definition prInv :: "prStats \<Rightarrow> bool" where
  "prInv s = ((\<forall>b \<in> set (batches s). b \<noteq> [] \<and> withinLimit MAX_DIFF_LENGTH patchLength b)
     \<and> currentBatchSize s = sum_list (map patchLength (currentBatch s))
     \<and> (currentBatch s = [] \<or> withinLimit MAX_DIFF_LENGTH patchLength (currentBatch s)))"

definition repoInv :: "repoStats \<Rightarrow> bool" where
  "repoInv s = ((\<forall>b \<in> set (batches s). b \<noteq> [] \<and> length b \<le> MAX_FILES_PER_BATCH
                    \<and> (\<forall>e \<in> set b. length (content e) \<le> 12037))
     \<and> length (currentBatch s) \<le> MAX_FILES_PER_BATCH
     \<and> (\<forall>e \<in> set (currentBatch s). length (content e) \<le> 12037)
     \<and> currentBatchSize s = storedSize (currentBatch s))"

section \<open>Properties of the batching\<close>

lemma concat_finalBatches: "concat (finalBatches s) = concat (batches s) @ currentBatch s"
  by (simp add: finalBatches_def)

lemma prStep_concat:
  "concat (batches (prStep s f)) @ currentBatch (prStep s f) =
   concat (batches s) @ currentBatch s @ filter hasPatch [f]"
  by (simp add: prStep_def closeBatch_def Let_def)

lemma foldl_prStep_concat:
  "concat (batches (foldl prStep s fs)) @ currentBatch (foldl prStep s fs) =
   concat (batches s) @ currentBatch s @ filter hasPatch fs"
proof (induction fs arbitrary: s)
  case Nil
  show ?case by simp
next
  case (Cons f fs)
  have "concat (batches (foldl prStep (prStep s f) fs)) @ currentBatch (foldl prStep (prStep s f) fs)
        = (concat (batches (prStep s f)) @ currentBatch (prStep s f)) @ filter hasPatch fs"
    using Cons.IH [of "prStep s f"] by simp
  also have "\<dots> = (concat (batches s) @ currentBatch s @ filter hasPatch [f]) @ filter hasPatch fs"
    by (simp only: prStep_concat)
  finally show ?case by simp
qed

lemma prBatches_concat: "concat (prBatches files) = filter hasPatch files"
  using foldl_prStep_concat [of prInit files]
  by (simp add: prBatches_def prScan_def concat_finalBatches prInit_def)

lemma repoStep_concat:
  "concat (batches (repoStep s f)) @ currentBatch (repoStep s f) =
   concat (batches s) @ currentBatch s @ map entryOf (filter analyzable [f])"
  by (simp add: repoStep_def closeBatch_def Let_def analyzable_def entryOf_def fileText_def
           split: fetchResult.splits)

lemma foldl_repoStep_concat:
  "concat (batches (foldl repoStep s fs)) @ currentBatch (foldl repoStep s fs) =
   concat (batches s) @ currentBatch s @ map entryOf (filter analyzable fs)"
proof (induction fs arbitrary: s)
  case Nil
  show ?case by simp
next
  case (Cons f fs)
  have "concat (batches (foldl repoStep (repoStep s f) fs)) @ currentBatch (foldl repoStep (repoStep s f) fs)
        = (concat (batches (repoStep s f)) @ currentBatch (repoStep s f))
          @ map entryOf (filter analyzable fs)"
    using Cons.IH [of "repoStep s f"] by simp
  also have "\<dots> = (concat (batches s) @ currentBatch s @ map entryOf (filter analyzable [f]))
          @ map entryOf (filter analyzable fs)"
    by (simp only: repoStep_concat)
  finally show ?case by simp
qed

lemma repoBatches_concat: "concat (repoBatches files) = map entryOf (filter analyzable files)"
  using foldl_repoStep_concat [of repoInit files]
  by (simp add: repoBatches_def repoScan_def concat_finalBatches repoInit_def)

text \<open>
  Claim C1.  The batches of either batching loop, concatenated in order, are the files
  that the loop did not pass over, each once and in the order of the input.  For the
  pull-request script these are the files with a non-empty patch; for analyzeCodeBatches
  they are the files whose content was fetched with encoding base64, each stored under
  its path with its (possibly truncated) content.
\<close>

theorem batches_partition_input:
  "concat (prBatches files) = filter hasPatch files
   \<and> concat (repoBatches codeFiles) = map entryOf (filter analyzable codeFiles)
   \<and> map path (concat (repoBatches codeFiles)) = map filePath (filter analyzable codeFiles)"
proof -
  have "map path (map entryOf (filter analyzable codeFiles)) = map filePath (filter analyzable codeFiles)"
    by (simp add: entryOf_def)
  then show ?thesis
    by (simp add: prBatches_concat repoBatches_concat)
qed

subsection \<open>Size and count limits\<close>

lemma prInv_step: "prInv s \<Longrightarrow> prInv (prStep s f)"
  unfolding prInv_def prStep_def closeBatch_def Let_def withinLimit_def
  by (cases "currentBatch s") auto

lemma prInv_foldl: "prInv s \<Longrightarrow> prInv (foldl prStep s fs)"
  by (induction fs arbitrary: s) (simp_all add: prInv_step)

lemma prInv_init: "prInv prInit"
  by (simp add: prInv_def prInit_def)

lemma prBatches_withinLimit:
  "b \<in> set (prBatches files) \<Longrightarrow> b \<noteq> [] \<and> withinLimit MAX_DIFF_LENGTH patchLength b"
  using prInv_foldl [OF prInv_init, of files]
  by (auto simp: prBatches_def prScan_def finalBatches_def prInv_def split: if_splits)

lemma withinLimit_oversized:
  assumes "withinLimit limit sz b" "f \<in> set b" "limit < sz f"
  shows "b = [f]"
proof -
  have "sz f \<le> sum_list (map sz b)" using assms(2) by (simp add: member_le_sum_list)
  then have "case b of [g] \<Rightarrow> limit < sz g | _ \<Rightarrow> False"
    using assms unfolding withinLimit_def by auto
  then show ?thesis using assms(2) by (auto split: list.splits)
qed

lemma length_truncatedContent: "length (truncatedContent c) \<le> 12037"
  by (simp add: truncatedContent_def truncationMark_def)

lemma repoInv_step: "repoInv s \<Longrightarrow> repoInv (repoStep s f)"
  unfolding repoInv_def repoStep_def closeBatch_def Let_def storedSize_def
  using length_truncatedContent
  by (auto simp: MAX_FILES_PER_BATCH_def split: fetchResult.splits)

lemma repoInv_foldl: "repoInv s \<Longrightarrow> repoInv (foldl repoStep s fs)"
  by (induction fs arbitrary: s) (simp_all add: repoInv_step)

lemma repoInv_init: "repoInv repoInit"
  by (simp add: repoInv_def repoInit_def storedSize_def)

lemma sum_list_bounded:
  "(\<forall>x \<in> set xs. g x \<le> (k::nat)) \<Longrightarrow> sum_list (map g xs) \<le> length xs * k"
  by (induction xs) auto

lemma repoBatches_bounds:
  assumes "b \<in> set (repoBatches files)"
  shows "b \<noteq> [] \<and> length b \<le> MAX_FILES_PER_BATCH \<and> storedSize b \<le> MAX_BATCH_SIZE"
proof -
  have inv: "repoInv (repoScan files)"
    unfolding repoScan_def by (rule repoInv_foldl [OF repoInv_init])
  have b: "b \<noteq> [] \<and> length b \<le> MAX_FILES_PER_BATCH \<and> (\<forall>e \<in> set b. length (content e) \<le> 12037)"
    using assms inv by (auto simp: repoBatches_def finalBatches_def repoInv_def split: if_splits)
  then have "storedSize b \<le> length b * 12037"
    unfolding storedSize_def by (intro sum_list_bounded) simp
  also have "\<dots> \<le> 25 * 12037" using b by (simp add: MAX_FILES_PER_BATCH_def)
  finally have "storedSize b \<le> MAX_BATCH_SIZE" by (simp add: MAX_BATCH_SIZE_def)
  with b show ?thesis by simp
qed

text \<open>Sample runs of the two loops, used below.\<close>

lemma repoBatches_big_small:
  "repoBatches [bigFile, smallFile] = [[entryOf bigFile, entryOf smallFile]]"
  by (simp add: repoBatches_def repoScan_def repoStep_def repoInit_def closeBatch_def finalBatches_def
      bigFile_def smallFile_def entryOf_def fileText_def MAX_BATCH_SIZE_def MAX_FILES_PER_BATCH_def
      truncatedContent_def truncationMark_def Let_def)

lemma foldl_prStep_fit:
  "\<lbrakk>\<forall>f \<in> set fs. hasPatch f; currentBatchSize s + sum_list (map patchLength fs) \<le> MAX_DIFF_LENGTH\<rbrakk>
   \<Longrightarrow> batches (foldl prStep s fs) = batches s \<and> currentBatch (foldl prStep s fs) = currentBatch s @ fs"
proof (induction fs arbitrary: s)
  case Nil
  show ?case by simp
next
  case (Cons f fs)
  have step: "batches (prStep s f) = batches s \<and> currentBatch (prStep s f) = currentBatch s @ [f]
       \<and> currentBatchSize (prStep s f) = currentBatchSize s + patchLength f"
    using Cons.prems by (simp add: prStep_def Let_def)
  have "batches (foldl prStep (prStep s f) fs) = batches (prStep s f)
      \<and> currentBatch (foldl prStep (prStep s f) fs) = currentBatch (prStep s f) @ fs"
    using Cons.prems step by (intro Cons.IH) simp_all
  with step show ?case by simp
qed

lemma prBatches_fit:
  "\<lbrakk>fs \<noteq> []; \<forall>f \<in> set fs. hasPatch f; sum_list (map patchLength fs) \<le> MAX_DIFF_LENGTH\<rbrakk>
   \<Longrightarrow> prBatches fs = [fs]"
  using foldl_prStep_fit [of fs prInit]
  by (simp add: prBatches_def prScan_def finalBatches_def prInit_def)

lemma prBatches_26: "prBatches (replicate 26 plusFile) = [replicate 26 plusFile]"
  by (rule prBatches_fit)
     (simp_all add: plusFile_def hasPatch_def patchLength_def MAX_DIFF_LENGTH_def sum_list_replicate)

lemma prBatches_plus_huge_plus:
  "prBatches [plusFile, hugeFile, plusFile] = [[plusFile], [hugeFile], [plusFile]]"
  by (simp add: prBatches_def prScan_def prStep_def prInit_def closeBatch_def finalBatches_def
      plusFile_def hugeFile_def hasPatch_def patchLength_def MAX_DIFF_LENGTH_def Let_def)

lemma prBatches_hasPatch:
  assumes "b \<in> set (prBatches files)" "f \<in> set b"
  shows "hasPatch f"
proof -
  have "f \<in> set (concat (prBatches files))" using assms by auto
  then show ?thesis by (simp add: prBatches_concat)
qed

lemma hasPatch_patchLength: "hasPatch f \<Longrightarrow> 1 \<le> patchLength f"
  by (cases "patch f") (simp_all add: hasPatch_def patchLength_def Suc_le_eq)

lemma length_le_sum_sizes:
  "(\<forall>x \<in> set xs. (1::nat) \<le> g x) \<Longrightarrow> length xs \<le> sum_list (map g xs)"
  by (induction xs) auto

lemma prBatches_length:
  assumes "b \<in> set (prBatches files)"
  shows "length b \<le> MAX_DIFF_LENGTH"
proof -
  have "\<forall>f \<in> set b. 1 \<le> patchLength f"
  proof
    fix f assume "f \<in> set b"
    then have "hasPatch f" by (rule prBatches_hasPatch [OF assms])
    then show "1 \<le> patchLength f" by (rule hasPatch_patchLength)
  qed
  then have le: "length b \<le> sum_list (map patchLength b)" by (rule length_le_sum_sizes)
  have "withinLimit MAX_DIFF_LENGTH patchLength b" using prBatches_withinLimit [OF assms] by simp
  then show ?thesis
    using le by (auto simp: withinLimit_def MAX_DIFF_LENGTH_def split: list.splits)
qed

lemma repoBatches_entries:
  assumes "b \<in> set (repoBatches files)" "e \<in> set b"
  shows "e \<in> entryOf ` set (filter analyzable files) \<and> length (content e) \<le> 12000 + length truncationMark"
proof -
  have "e \<in> set (concat (repoBatches files))" using assms by auto
  then have m: "e \<in> entryOf ` set (filter analyzable files)" by (simp add: repoBatches_concat)
  then obtain f where "e = entryOf f" by blast
  then have "length (content e) \<le> 12000 + length truncationMark"
    by (simp add: entryOf_def truncatedContent_def)
  with m show ?thesis by simp
qed

text \<open>
  Claim C2, as amended.  In the pull-request script every batch has a total patch length
  of at most \<open>MAX_DIFF_LENGTH\<close>, unless it is a single file whose patch is longer than
  the limit by itself, and a file with such a patch is always alone in its batch.  In
  analyzeCodeBatches every entry of a batch is a file with its content truncated, of at
  most 12000 characters and the marker, and the stored contents of every batch add up to
  at most \<open>MAX_BATCH_SIZE\<close>, with no exception.
\<close>

theorem batch_size_bounds:
  "(\<forall>b \<in> set (prBatches files).
      withinLimit MAX_DIFF_LENGTH patchLength b
      \<and> (\<forall>f \<in> set b. MAX_DIFF_LENGTH < patchLength f \<longrightarrow> b = [f]))
   \<and> (\<forall>b \<in> set (repoBatches codeFiles).
        storedSize b \<le> MAX_BATCH_SIZE
        \<and> (\<forall>e \<in> set b. e \<in> entryOf ` set (filter analyzable codeFiles)
                        \<and> length (content e) \<le> 12000 + length truncationMark))"
proof (intro conjI ballI impI)
  fix b assume "b \<in> set (prBatches files)"
  then show "withinLimit MAX_DIFF_LENGTH patchLength b"
    using prBatches_withinLimit [of b files] by simp
next
  fix b f assume b: "b \<in> set (prBatches files)" and f: "f \<in> set b" "MAX_DIFF_LENGTH < patchLength f"
  have "withinLimit MAX_DIFF_LENGTH patchLength b"
    using prBatches_withinLimit [OF b] by simp
  then show "b = [f]"
    using f by (rule withinLimit_oversized)
next
  fix b assume "b \<in> set (repoBatches codeFiles)"
  then show "storedSize b \<le> MAX_BATCH_SIZE"
    using repoBatches_bounds [of b codeFiles] by simp
next
  fix b e assume "b \<in> set (repoBatches codeFiles)" "e \<in> set b"
  then show "e \<in> entryOf ` set (filter analyzable codeFiles)"
    using repoBatches_entries [of b codeFiles e] by simp
next
  fix b e assume "b \<in> set (repoBatches codeFiles)" "e \<in> set b"
  then show "length (content e) \<le> 12000 + length truncationMark"
    using repoBatches_entries [of b codeFiles e] by simp
qed

theorem batch_size_bounds_witness:
  "[hugeFile] \<in> set (prBatches [plusFile, hugeFile, plusFile])
   \<and> hugeFile \<in> set [hugeFile]
   \<and> MAX_DIFF_LENGTH < patchLength hugeFile
   \<and> withinLimit MAX_DIFF_LENGTH patchLength [hugeFile]
   \<and> [entryOf bigFile, entryOf smallFile] \<in> set (repoBatches [bigFile, smallFile])
   \<and> storedSize [entryOf bigFile, entryOf smallFile] \<le> MAX_BATCH_SIZE
   \<and> entryOf bigFile \<in> set [entryOf bigFile, entryOf smallFile]
   \<and> length (content (entryOf bigFile)) \<le> 12000 + length truncationMark"
proof -
  have m1: "[hugeFile] \<in> set (prBatches [plusFile, hugeFile, plusFile])"
    by (simp add: prBatches_plus_huge_plus)
  have m2: "[entryOf bigFile, entryOf smallFile] \<in> set (repoBatches [bigFile, smallFile])"
    by (simp add: repoBatches_big_small)
  have m3: "entryOf bigFile \<in> set [entryOf bigFile, entryOf smallFile]" by simp
  have big: "MAX_DIFF_LENGTH < patchLength hugeFile"
    by (simp add: MAX_DIFF_LENGTH_def patchLength_def hugeFile_def)
  note T = batch_size_bounds [of "[plusFile, hugeFile, plusFile]" "[bigFile, smallFile]"]
  have w: "withinLimit MAX_DIFF_LENGTH patchLength [hugeFile]"
    using T [THEN conjunct1] m1 by blast
  have s: "storedSize [entryOf bigFile, entryOf smallFile] \<le> MAX_BATCH_SIZE"
    using T [THEN conjunct2] m2 by blast
  have l: "length (content (entryOf bigFile)) \<le> 12000 + length truncationMark"
    using T [THEN conjunct2] m2 m3 by blast
  show ?thesis
    by (intro conjI m1 big w m2 s m3 l) simp
qed

text \<open>
  The claim as stated fails in analyzeCodeBatches: a file whose own content is longer
  than \<open>MAX_BATCH_SIZE\<close> is truncated and shares its batch with the file after it.
\<close>

theorem oversized_file_shares_batch:
  "repoBatches [bigFile, smallFile] = [[entryOf bigFile, entryOf smallFile]]
   \<and> MAX_BATCH_SIZE < length (fileText bigFile)"
proof
  show "repoBatches [bigFile, smallFile] = [[entryOf bigFile, entryOf smallFile]]"
    by (rule repoBatches_big_small)
  show "MAX_BATCH_SIZE < length (fileText bigFile)"
    by (simp add: fileText_def bigFile_def MAX_BATCH_SIZE_def)
qed

text \<open>
  Claim C7, as amended.  No batch of analyzeCodeBatches has more than
  \<open>MAX_FILES_PER_BATCH\<close> files.  The pull-request script has no limit on the number of
  files: a batch is bounded by the characters of its patches only, so it has at most
  \<open>MAX_DIFF_LENGTH\<close> files.
\<close>

theorem batch_count_bounds:
  "(\<forall>b \<in> set (repoBatches codeFiles). length b \<le> MAX_FILES_PER_BATCH)
   \<and> (\<forall>b \<in> set (prBatches files). length b \<le> MAX_DIFF_LENGTH)"
  using repoBatches_bounds [of _ codeFiles] prBatches_length [of _ files] by simp

theorem batch_count_bounds_witness:
  "[entryOf bigFile, entryOf smallFile] \<in> set (repoBatches [bigFile, smallFile])
   \<and> length [entryOf bigFile, entryOf smallFile] \<le> MAX_FILES_PER_BATCH
   \<and> replicate 26 plusFile \<in> set (prBatches (replicate 26 plusFile))
   \<and> length (replicate 26 plusFile) \<le> MAX_DIFF_LENGTH"
proof -
  have m1: "[entryOf bigFile, entryOf smallFile] \<in> set (repoBatches [bigFile, smallFile])"
    by (simp add: repoBatches_big_small)
  have m2: "replicate 26 plusFile \<in> set (prBatches (replicate 26 plusFile))"
    by (simp add: prBatches_26)
  from batch_count_bounds [of "[bigFile, smallFile]" "replicate 26 plusFile"] m1 m2
  have "length [entryOf bigFile, entryOf smallFile] \<le> MAX_FILES_PER_BATCH
        \<and> length (replicate 26 plusFile) \<le> MAX_DIFF_LENGTH"
    by blast
  with m1 m2 show ?thesis by simp
qed

text \<open>
  The claim as stated fails in the pull-request script: 26 files with a patch of one
  character make one batch, more than either file limit of the other scripts.
\<close>

theorem pr_batch_exceeds_file_limit:
  "prBatches (replicate 26 plusFile) = [replicate 26 plusFile]
   \<and> MAX_FILES_PER_BATCH < length (replicate 26 plusFile)
   \<and> maxFilesPerBatch < length (replicate 26 plusFile)"
  by (simp add: prBatches_26 MAX_FILES_PER_BATCH_def maxFilesPerBatch_def)

section \<open>Properties of the analysis\<close>

subsection \<open>The rollup of the qualities\<close>

lemma repoQuality_rollStep:
  assumes "overall \<in> set knownQualities \<or> overall = ''Unknown''" "q \<in> set knownQualities"
     "i = 0 \<longrightarrow> overall = ''Unknown''"
  shows "repoQuality i overall q = rollStep overall q"
  using assms
  by (auto simp: repoQuality_def rollStep_def knownQualities_def qualityRank_def qualityOrder_def)

lemma repoAnalyze_quality:
  assumes "\<forall>q \<in> set (reported cl i bs). q \<in> set knownQualities"
    "overallCodeQuality acc \<in> set knownQualities \<or> overallCodeQuality acc = ''Unknown''"
    "i = 0 \<longrightarrow> overallCodeQuality acc = ''Unknown''"
  shows "overallCodeQuality (repoAnalyze cl n i bs acc) = foldl rollStep (overallCodeQuality acc) (reported cl i bs)"
  using assms
proof (induction bs arbitrary: i acc)
  case Nil
  show ?case by simp
next
  case (Cons b bs)
  show ?case
  proof (cases "cl i b")
    case (ClassifierError m)
    have step: "overallCodeQuality (repoAnalyzeStep cl n i b acc) = overallCodeQuality acc"
      using ClassifierError by (simp add: repoAnalyzeStep_def)
    have "overallCodeQuality (repoAnalyze cl n (Suc i) bs (repoAnalyzeStep cl n i b acc))
          = foldl rollStep (overallCodeQuality (repoAnalyzeStep cl n i b acc)) (reported cl (Suc i) bs)"
      using Cons.prems ClassifierError step by (intro Cons.IH) simp_all
    then show ?thesis using ClassifierError step by simp
  next
    case (Verdict v)
    have q: "code_quality v \<in> set knownQualities" using Cons.prems(1) Verdict by simp
    have step: "overallCodeQuality (repoAnalyzeStep cl n i b acc) = rollStep (overallCodeQuality acc) (code_quality v)"
      using Verdict Cons.prems(2,3) q
      by (simp add: repoAnalyzeStep_def repoQuality_rollStep)
    have known: "overallCodeQuality (repoAnalyzeStep cl n i b acc) \<in> set knownQualities"
      using step q Cons.prems(2) by (auto simp: rollStep_def)
    have "overallCodeQuality (repoAnalyze cl n (Suc i) bs (repoAnalyzeStep cl n i b acc))
          = foldl rollStep (overallCodeQuality (repoAnalyzeStep cl n i b acc)) (reported cl (Suc i) bs)"
      using Cons.prems(1) Verdict known by (intro Cons.IH) simp_all
    then show ?thesis using Verdict step by simp
  qed
qed

lemma foldl_rollStep_seeded:
  assumes "a \<noteq> ''Unknown''" "\<forall>q \<in> set qs. q \<noteq> ''Unknown''"
  shows "foldl rollStep a qs =
         foldl (\<lambda>overall q. if qualityOrder q < qualityOrder overall then q else overall) a qs"
  using assms
proof (induction qs arbitrary: a)
  case Nil
  show ?case by simp
next
  case (Cons q qs)
  have "rollStep a q \<noteq> ''Unknown''" using Cons.prems by (auto simp: rollStep_def)
  then show ?case using Cons by (simp add: rollStep_def)
qed

lemma foldl_rollStep_worst:
  assumes "qs \<noteq> []" "\<forall>q \<in> set qs. q \<noteq> ''Unknown''"
  shows "foldl rollStep ''Unknown'' qs = worstQuality qs"
proof (cases qs)
  case Nil
  then show ?thesis using assms by simp
next
  case (Cons q rest)
  have "foldl rollStep ''Unknown'' qs = foldl rollStep q rest"
    using Cons by (simp add: rollStep_def)
  also have "\<dots> = foldl (\<lambda>overall q. if qualityOrder q < qualityOrder overall then q else overall) q rest"
    using assms(2) Cons by (intro foldl_rollStep_seeded) simp_all
  finally show ?thesis using Cons by (simp add: worstQuality_def)
qed

lemma order_foldl_worst:
  "qualityOrder (foldl (\<lambda>overall q. if qualityOrder q < qualityOrder overall then q else overall) a qs)
   = Min (insert (qualityOrder a) (qualityOrder ` set qs))"
proof (induction qs arbitrary: a)
  case Nil
  show ?case by simp
next
  case (Cons q qs)
  let ?a' = "if qualityOrder q < qualityOrder a then q else a"
  have "qualityOrder ?a' = min (qualityOrder a) (qualityOrder q)" by auto
  then have "Min (insert (qualityOrder ?a') (qualityOrder ` set qs))
           = Min (insert (qualityOrder a) (insert (qualityOrder q) (qualityOrder ` set qs)))"
    by (cases "qualityOrder ` set qs = {}") (simp_all add: min.assoc)
  then show ?case using Cons.IH [of ?a'] by simp
qed

lemma order_worstQuality:
  "qs \<noteq> [] \<Longrightarrow> qualityOrder (worstQuality qs) = Min (qualityOrder ` set qs)"
proof (cases qs)
  case Nil
  assume "qs \<noteq> []"
  then show ?thesis using Nil by simp
next
  case (Cons q rest)
  then show ?thesis using order_foldl_worst [of q rest] by (simp add: worstQuality_def)
qed

lemma worstQuality_append:
  assumes "qs \<noteq> []"
  shows "qualityOrder (worstQuality (qs @ rs)) \<le> qualityOrder (worstQuality qs)"
proof -
  have "set qs \<subseteq> set (qs @ rs)" by simp
  then have "Min (qualityOrder ` set (qs @ rs)) \<le> Min (qualityOrder ` set qs)"
    using assms by (intro Min_antimono) auto
  then show ?thesis using assms by (simp add: order_worstQuality)
qed

lemma reported_append:
  "reported cl i (xs @ ys) = reported cl i xs @ reported cl (i + length xs) ys"
  by (induction xs arbitrary: i) (simp_all split: classifierResult.splits)

lemma appAnalyze_append:
  "appAnalyze cl n i (xs @ ys) acc = appAnalyze cl n (i + length xs) ys (appAnalyze cl n i xs acc)"
  by (induction xs arbitrary: i acc) simp_all

lemma repoAnalyze_append:
  "repoAnalyze cl n i (xs @ ys) acc = repoAnalyze cl n (i + length xs) ys (repoAnalyze cl n i xs acc)"
  by (induction xs arbitrary: i acc) simp_all

lemma knownQualities_not_Unknown: "q \<in> set knownQualities \<Longrightarrow> q \<noteq> ''Unknown''"
  by (auto simp: knownQualities_def qualityRank_def)

lemma repoAnalyze_worst:
  assumes "reported cl 0 bs \<noteq> []"
    and "\<forall>q \<in> set (reported cl 0 bs). q \<in> set knownQualities"
  shows "overallCodeQuality (repoAnalyze cl n 0 bs repoTotalsInit) = worstQuality (reported cl 0 bs)"
proof -
  have "overallCodeQuality (repoAnalyze cl n 0 bs repoTotalsInit)
        = foldl rollStep (overallCodeQuality repoTotalsInit) (reported cl 0 bs)"
    using assms(2) by (intro repoAnalyze_quality) (simp_all add: repoTotalsInit_def)
  also have "\<dots> = foldl rollStep ''Unknown'' (reported cl 0 bs)" by (simp add: repoTotalsInit_def)
  also have "\<dots> = worstQuality (reported cl 0 bs)"
    using assms knownQualities_not_Unknown by (intro foldl_rollStep_worst) auto
  finally show ?thesis .
qed

lemma worstQuality_mem: "qs \<noteq> [] \<Longrightarrow> worstQuality qs \<in> set qs"
proof -
  have "foldl (\<lambda>overall q. if qualityOrder q < qualityOrder overall then q else overall) a rs
        \<in> insert a (set rs)" for a rs
    by (induction rs arbitrary: a) auto
  then show "qs \<noteq> [] \<Longrightarrow> worstQuality qs \<in> set qs"
    by (cases qs) (auto simp: worstQuality_def)
qed

text \<open>
  In \<open>analyzePullRequest\<close> every call of \<open>updateOverallCodeQuality\<close> throws, so the
  quality of a run stays the placeholder it started as, whatever the batches reported.
\<close>

lemma updateOverallCodeQuality_throws:
  "updateOverallCodeQuality functionScope batchIndex batchQuality = Inl ''overallCodeQuality is not defined''"
  by (simp add: updateOverallCodeQuality_def functionScope_def readVar_def assignVar_def)

lemma appAnalyzeStep_quality:
  "overallCodeQuality (appAnalyzeStep cl n i b acc) = overallCodeQuality acc"
  by (simp add: appAnalyzeStep_def updateOverallCodeQuality_throws Let_def split: classifierResult.splits)

lemma appAnalyze_quality: "overallCodeQuality (appAnalyze cl n i bs acc) = overallCodeQuality acc"
  by (induction bs arbitrary: i acc) (simp_all add: appAnalyzeStep_quality)

lemma appAnalyze_quality_Unknown: "overallCodeQuality (appAnalyze cl n 0 bs appTotalsInit) = ''Unknown''"
  by (simp add: appAnalyze_quality appTotalsInit_def)

text \<open>Sample runs of the loops.\<close>

lemma appAnalyze_good_poor:
  "appAnalyze (scripted [Verdict (sampleVerdict 0.9 ''good''), Verdict (sampleVerdict 0.1 ''poor'')]) 5 0
     [[plusFile, plusFile, plusFile], [plusFile, plusFile]] appTotalsInit
   = \<lparr>overallAiProb = 0.58,
      allRationales = [''Batch 1 (3 files): r'',
                       ''Batch 1: Error during analysis - overallCodeQuality is not defined'',
                       ''Batch 2 (2 files): r'',
                       ''Batch 2: Error during analysis - overallCodeQuality is not defined''],
      allPatterns = [], overallCodeQuality = ''Unknown'', tokenCount = 2\<rparr>"
  by (simp add: appAnalyzeStep_def scripted_def sampleVerdict_def appTotalsInit_def
      updateOverallCodeQuality_throws Let_def
      verdictLine_def errorLine_def showNat.simps digitChar_def addPatterns_def batchTokenEstimate_def
      plusFile_def patchLength_def)

lemma repoAnalyze_good_poor:
  "repoAnalyze (scripted [Verdict (sampleVerdict 0.9 ''good''), Verdict (sampleVerdict 0.1 ''poor'')]) 5 0
     [[e, e, e], [e, e]] repoTotalsInit
   = \<lparr>overallAiProb = 0.58, allRationales = [''Batch 1 (3 files): r'', ''Batch 2 (2 files): r''],
      allPatterns = [], overallCodeQuality = ''poor''\<rparr>"
  by (simp add: repoAnalyzeStep_def scripted_def sampleVerdict_def repoTotalsInit_def repoQuality_def
      verdictLine_def showNat.simps digitChar_def addPatterns_def)

text \<open>
  Claim C4, as amended.  For every run of analyzeCodeBatches whose reported qualities are
  among poor, average, good and excellent (at least one batch of \<open>xs\<close> having reported
  one): the aggregate quality is the rollup of the reported qualities in which the first
  one seeds the aggregate and afterwards only a strictly lower rank replaces it; it is
  one of the reported qualities and its rank is the minimum of the reported ranks; and
  its rank after more batches (\<open>xs @ ys\<close>) is never above its rank after fewer (\<open>xs\<close>).
\<close>

theorem quality_rollup_is_worst:
  assumes "reported cl 0 xs \<noteq> []"
    and "\<forall>q \<in> set (reported cl 0 (xs @ ys)). q \<in> set knownQualities"
  shows "overallCodeQuality (repoAnalyze cl n 0 (xs @ ys) repoTotalsInit) = worstQuality (reported cl 0 (xs @ ys))
     \<and> overallCodeQuality (repoAnalyze cl n 0 (xs @ ys) repoTotalsInit) \<in> set (reported cl 0 (xs @ ys))
     \<and> qualityOrder (overallCodeQuality (repoAnalyze cl n 0 (xs @ ys) repoTotalsInit))
         = Min (qualityOrder ` set (reported cl 0 (xs @ ys)))
     \<and> qualityOrder (overallCodeQuality (repoAnalyze cl n 0 (xs @ ys) repoTotalsInit))
         \<le> qualityOrder (overallCodeQuality (repoAnalyze cl n 0 xs repoTotalsInit))"
proof -
  have split: "reported cl 0 (xs @ ys) = reported cl 0 xs @ reported cl (length xs) ys"
    using reported_append [of cl 0 xs ys] by simp
  have ne: "reported cl 0 (xs @ ys) \<noteq> []" using assms(1) split by simp
  have all: "overallCodeQuality (repoAnalyze cl n 0 (xs @ ys) repoTotalsInit) = worstQuality (reported cl 0 (xs @ ys))"
    using ne assms(2) by (rule repoAnalyze_worst)
  have "\<forall>q \<in> set (reported cl 0 xs). q \<in> set knownQualities"
    using assms(2) split by simp
  then have part: "overallCodeQuality (repoAnalyze cl n 0 xs repoTotalsInit) = worstQuality (reported cl 0 xs)"
    using assms(1) by (intro repoAnalyze_worst)
  have mono: "qualityOrder (worstQuality (reported cl 0 (xs @ ys))) \<le> qualityOrder (worstQuality (reported cl 0 xs))"
    unfolding split using assms(1) by (rule worstQuality_append)
  show ?thesis
    using all part mono order_worstQuality [OF ne] worstQuality_mem [OF ne] by simp
qed

theorem quality_rollup_is_worst_witness:
  "reported (scripted [Verdict (sampleVerdict 0.9 ''good''), Verdict (sampleVerdict 0.1 ''poor'')]) 0
      ([[entryOf smallFile]] @ [[entryOf bigFile]]) = [''good'', ''poor'']
   \<and> overallCodeQuality (repoAnalyze (scripted [Verdict (sampleVerdict 0.9 ''good''), Verdict (sampleVerdict 0.1 ''poor'')]) 5 0
        ([[entryOf smallFile]] @ [[entryOf bigFile]]) repoTotalsInit) = worstQuality [''good'', ''poor'']
   \<and> worstQuality [''good'', ''poor''] = ''poor''
   \<and> qualityOrder (overallCodeQuality
        (repoAnalyze (scripted [Verdict (sampleVerdict 0.9 ''good''), Verdict (sampleVerdict 0.1 ''poor'')]) 5 0
           ([[entryOf smallFile]] @ [[entryOf bigFile]]) repoTotalsInit))
       \<le> qualityOrder (overallCodeQuality
        (repoAnalyze (scripted [Verdict (sampleVerdict 0.9 ''good''), Verdict (sampleVerdict 0.1 ''poor'')]) 5 0
           [[entryOf smallFile]] repoTotalsInit))"
proof -
  let ?cl = "scripted [Verdict (sampleVerdict 0.9 ''good''), Verdict (sampleVerdict 0.1 ''poor'')]"
  have r3: "reported ?cl 0 [[entryOf smallFile]] \<noteq> []"
    by (simp add: scripted_def sampleVerdict_def)
  have r4: "reported ?cl 0 ([[entryOf smallFile]] @ [[entryOf bigFile]]) = [''good'', ''poor'']"
    by (simp add: scripted_def sampleVerdict_def)
  have known: "\<forall>q \<in> set (reported ?cl 0 ([[entryOf smallFile]] @ [[entryOf bigFile]])). q \<in> set knownQualities"
    unfolding r4 by (simp add: knownQualities_def qualityRank_def)
  have w: "worstQuality [''good'', ''poor''] = ''poor''"
    by (simp add: worstQuality_def qualityOrder_def qualityRank_def)
  note T = quality_rollup_is_worst [of ?cl "[[entryOf smallFile]]" "[[entryOf bigFile]]" 5, OF r3 known]
  have c1: "overallCodeQuality (repoAnalyze ?cl 5 0 ([[entryOf smallFile]] @ [[entryOf bigFile]]) repoTotalsInit)
          = worstQuality [''good'', ''poor'']"
    using T [THEN conjunct1] unfolding r4 .
  have c4: "qualityOrder (overallCodeQuality (repoAnalyze ?cl 5 0 ([[entryOf smallFile]] @ [[entryOf bigFile]]) repoTotalsInit))
          \<le> qualityOrder (overallCodeQuality (repoAnalyze ?cl 5 0 [[entryOf smallFile]] repoTotalsInit))"
    by (rule T [THEN conjunct2, THEN conjunct2, THEN conjunct2])
  show ?thesis
    by (intro conjI r4 c1 w c4)
qed

text \<open>
  The claim as stated fails in analyzeCodeBatches: a string outside the four qualities
  does not replace \<open>good\<close>, although the claim ranks it as poor, below \<open>good\<close>.
\<close>

theorem quality_rollup_not_always_worst:
  "overallCodeQuality (repoAnalyze (scripted [Verdict (sampleVerdict 0 ''good''), Verdict (sampleVerdict 0 ''weird'')]) 2 0
       [[entryOf smallFile], [entryOf smallFile]] repoTotalsInit) = ''good''
   \<and> qualityOrder ''weird'' < qualityOrder ''good''"
proof (intro conjI)
  show "overallCodeQuality (repoAnalyze (scripted [Verdict (sampleVerdict 0 ''good''), Verdict (sampleVerdict 0 ''weird'')]) 2 0
       [[entryOf smallFile], [entryOf smallFile]] repoTotalsInit) = ''good''"
    by (simp add: repoAnalyzeStep_def scripted_def sampleVerdict_def repoTotalsInit_def repoQuality_def)
  show "qualityOrder ''weird'' < qualityOrder ''good''"
    by (simp add: qualityOrder_def qualityRank_def)
qed

section \<open>Properties of the rule loops and of the runs\<close>

lemma evalRules_completes:
  "list_all (completes ev ctx) rs \<Longrightarrow>
   evalRules ev ctx rs fw tr =
     (tr @ map (\<lambda>r. EvalCall (condition r)) rs,
      Inr (fst fw @ map (\<lambda>r. trim (message r))
                      (filter (\<lambda>r. ev (condition r) ctx = Completed True \<and> severity r = ''error'') rs),
           snd fw @ map (\<lambda>r. trim (message r))
                      (filter (\<lambda>r. ev (condition r) ctx = Completed True \<and> severity r \<noteq> ''error'') rs)))"
proof (induction rs arbitrary: fw tr)
  case Nil
  show ?case by simp
next
  case (Cons r rs)
  from Cons.prems obtain t where t: "ev (condition r) ctx = Completed t"
    by (auto simp: completes_def split: evalResult.splits)
  have rest: "list_all (completes ev ctx) rs" using Cons.prems by simp
  show ?case
    using t by (simp add: Cons.IH [OF rest])
qed






text \<open>The run of the script once the analysis and the rules went through.\<close>

lemma prScriptWith_published:
  assumes "snd (prAnalysis (classifier env) files) = Inr totals"
    and "reviewTxt env = Some text"
    and "list_all (completes (jsEval env) (prContext files totals)) (parseRulesFromText text)"
  shows "prScriptWith sc env files =
     prPublish env (sc totals)
       (map (\<lambda>r. trim (message r))
          (filter (\<lambda>r. jsEval env (condition r) (prContext files totals) = Completed True
                       \<and> severity r = ''error'') (parseRulesFromText text)))
       (fst (prAnalysis (classifier env) files) @ RulesFileRead
          # map (\<lambda>r. EvalCall (condition r)) (parseRulesFromText text))"
proof -
  obtain tr where a: "prAnalysis (classifier env) files = (tr, Inr totals)"
    using assms(1) by (cases "prAnalysis (classifier env) files") auto
  show ?thesis
    using a assms(2) by (simp add: prScriptWith_def evalRules_completes [OF assms(3)])
qed

lemma prScript_published:
  assumes "snd (prAnalysis (classifier env) files) = Inr totals"
    and "reviewTxt env = Some text"
    and "list_all (completes (jsEval env) (prContext files totals)) (parseRulesFromText text)"
  shows "prScript env files =
     prPublish env (prScore totals)
       (map (\<lambda>r. trim (message r))
          (filter (\<lambda>r. jsEval env (condition r) (prContext files totals) = Completed True
                       \<and> severity r = ''error'') (parseRulesFromText text)))
       (fst (prAnalysis (classifier env) files) @ RulesFileRead
          # map (\<lambda>r. EvalCall (condition r)) (parseRulesFromText text))"
  unfolding prScript_def using assms by (rule prScriptWith_published)








text \<open>Sample runs.\<close>

lemma parse_sampleReviewTxt:
  "parseRulesFromText sampleReviewTxt =
     [\<lparr>name = ''calls'', condition = ''Math.max(1, 2)'', severity = ''error'', message = ''m''\<rparr>]"
  by (simp add: parseRulesFromText_def sampleReviewTxt_def splitStr_def ruleOfSection_def ruleLine_def
     trim_def isJsSpace_def field_def List.map_filter_def Let_def)

lemma parse_warningReviewTxt:
  "parseRulesFromText warningReviewTxt =
     [\<lparr>name = ''tests'', condition = ''!ctx.tests_changed'', severity = ''warning'', message = ''no tests''\<rparr>]"
  by (simp add: parseRulesFromText_def warningReviewTxt_def splitStr_def ruleOfSection_def ruleLine_def
     trim_def isJsSpace_def field_def List.map_filter_def Let_def)

lemma prBatches_plusFile: "prBatches [plusFile] = [[plusFile]]"
  by (rule prBatches_fit) (simp_all add: plusFile_def hasPatch_def patchLength_def MAX_DIFF_LENGTH_def)

lemma prBatches_plus_binary: "prBatches [plusFile, binaryFile] = [[plusFile]]"
  by (simp add: prBatches_def prScan_def prStep_def prInit_def closeBatch_def finalBatches_def
      plusFile_def binaryFile_def hasPatch_def patchLength_def MAX_DIFF_LENGTH_def Let_def)

lemma prAnalysis_plusFile:
  "prAnalysis (scripted [Verdict (sampleVerdict p q)]) [plusFile]
   = ([ClassifierCall 0], Inr \<lparr>overallAiProb = p, allRationales = [''Batch 1: r'']\<rparr>)"
  by (simp add: prAnalysis_def prBatches_plusFile scripted_def sampleVerdict_def showNat.simps digitChar_def)

lemma prAnalysis_failed:
  "prAnalysis (scripted [ClassifierError m]) [plusFile] = ([ClassifierCall 0], Inl m)"
  by (simp add: prAnalysis_def prBatches_plusFile scripted_def)

lemma prAnalysis_none:
  "prAnalysis cl [] = ([], Inr \<lparr>overallAiProb = 0, allRationales = []\<rparr>)"
  by (simp add: prAnalysis_def prBatches_def prScan_def prInit_def finalBatches_def)


lemma run_error_rule:
  "prScript (sampleEnv [Verdict (sampleVerdict 1 ''good'')] sampleReviewTxt) [plusFile] =
     \<lparr>trace = [ClassifierCall 0, RulesFileRead, EvalCall ''Math.max(1, 2)'', ReviewPost, SlackWebhook],
      ending = Exited 1\<rparr>"
  by (simp add: prScript_def prScriptWith_def sampleEnv_def prAnalysis_plusFile parse_sampleReviewTxt sampleEval_def
      prPublish_def prScore_def toFixed1_def exitCode_def trim_def isJsSpace_def)


lemma run_no_files:
  "prScript (sampleEnv [] warningReviewTxt) [] =
     \<lparr>trace = [RulesFileRead, EvalCall ''!ctx.tests_changed'', ReviewPost], ending = Exited 0\<rparr>"
  by (simp add: prScript_def prScriptWith_def sampleEnv_def prAnalysis_none parse_warningReviewTxt sampleEval_def
      prContext_def prScan_def prInit_def prPublish_def prScore_def toFixed1_def exitCode_def)

lemma run_classifier_fails:
  "prScript (sampleEnv [ClassifierError ''timeout''] sampleReviewTxt) [plusFile] =
     \<lparr>trace = [ClassifierCall 0], ending = Crashed AtClassifier ''timeout''\<rparr>"
  by (simp add: prScript_def prScriptWith_def sampleEnv_def prAnalysis_failed)




lemma parseHumanReadableRules_conditions:
  assumes "r \<in> set (parseHumanReadableRules text)"
  shows "condition r \<in> set fixedConditions"
proof -
  obtain sec where "humanRuleOfSection sec = Some r"
    using assms by (auto simp: parseHumanReadableRules_def List.map_filter_def)
  then obtain title where "condition r = conditionOfTitle title" "conditionOfTitle title \<noteq> []"
    by (auto simp: humanRuleOfSection_def Let_def split: list.splits if_splits)
  then show ?thesis
    by (simp add: conditionOfTitle_def fixedConditions_def split: if_splits)
qed

lemma evalRules_calls:
  "fst (evalRules ev ctx rs fw tr) = tr @ map (\<lambda>x. EvalCall (condition x)) (evaluated ev ctx rs)"
proof (induction rs arbitrary: fw tr)
  case Nil
  show ?case by (simp add: evaluated_def)
next
  case (Cons r rs)
  show ?case
  proof (cases "ev (condition r) ctx")
    case (Threw m)
    then show ?thesis by (simp add: evaluated_def completes_def)
  next
    case (Completed t)
    have "evaluated ev ctx (r # rs) = r # evaluated ev ctx rs"
      using Completed by (simp add: evaluated_def completes_def)
    then show ?thesis using Completed by (simp add: Cons.IH)
  qed
qed

lemma evalRules_stops:
  "\<lbrakk>list_all (completes ev ctx) pre; ev (condition r) ctx = Threw m\<rbrakk> \<Longrightarrow>
   evalRules ev ctx (pre @ r # post) fw tr = (tr @ map (\<lambda>x. EvalCall (condition x)) (pre @ [r]), Inl m)"
proof (induction pre arbitrary: fw tr)
  case Nil
  then show ?case by simp
next
  case (Cons p pre)
  from Cons.prems(1) obtain t where t: "ev (condition p) ctx = Completed t"
    by (auto simp: completes_def split: evalResult.splits)
  have rest: "list_all (completes ev ctx) pre" using Cons.prems(1) by simp
  show ?case
    using t by (simp add: Cons.IH [OF rest Cons.prems(2)])
qed

text \<open>
  Claim C6, as amended.  Both rule loops hand the condition of a rule, as it is, to the
  interpreter of the host, one call per rule in the order of the rules, for every rule
  up to the first whose call throws; that throw ends the loop, and no rule after it is
  evaluated.  When every call completes, a rule is triggered exactly when its call
  completed with a truthy value, and its trimmed message goes to the failures for
  severity \<open>error\<close> and to the warnings otherwise.  No text is checked or refused before
  it is evaluated.  In analyzeRepository the conditions are not read from the
  configuration: each is one of eight fixed texts, chosen by the title of the rule.
\<close>

theorem conditions_are_handed_to_eval:
  "fst (evalRules ev ctx rs ([], []) []) = map (\<lambda>x. EvalCall (condition x)) (evaluated ev ctx rs)
   \<and> (list_all (completes ev ctx) rs \<longrightarrow>
        evalRules ev ctx rs ([], []) [] =
           (map (\<lambda>x. EvalCall (condition x)) rs,
            Inr (map (\<lambda>x. trim (message x))
                   (filter (\<lambda>x. ev (condition x) ctx = Completed True \<and> severity x = ''error'') rs),
                 map (\<lambda>x. trim (message x))
                   (filter (\<lambda>x. ev (condition x) ctx = Completed True \<and> severity x \<noteq> ''error'') rs))))
   \<and> (list_all (completes ev ctx) pre \<and> ev (condition r) ctx = Threw m \<longrightarrow>
        evalRules ev ctx (pre @ r # post) ([], []) [] =
           (map (\<lambda>x. EvalCall (condition x)) (pre @ [r]), Inl m))
   \<and> (\<forall>x \<in> set (parseHumanReadableRules text). condition x \<in> set fixedConditions)"
proof (intro conjI impI ballI)
  show "fst (evalRules ev ctx rs ([], []) []) = map (\<lambda>x. EvalCall (condition x)) (evaluated ev ctx rs)"
    using evalRules_calls [of ev ctx rs "([], [])" "[]"] by simp
next
  assume "list_all (completes ev ctx) rs"
  then show "evalRules ev ctx rs ([], []) [] =
           (map (\<lambda>x. EvalCall (condition x)) rs,
            Inr (map (\<lambda>x. trim (message x))
                   (filter (\<lambda>x. ev (condition x) ctx = Completed True \<and> severity x = ''error'') rs),
                 map (\<lambda>x. trim (message x))
                   (filter (\<lambda>x. ev (condition x) ctx = Completed True \<and> severity x \<noteq> ''error'') rs)))"
    using evalRules_completes [of ev ctx rs "([], [])" "[]"] by simp
next
  assume "list_all (completes ev ctx) pre \<and> ev (condition r) ctx = Threw m"
  then show "evalRules ev ctx (pre @ r # post) ([], []) [] =
           (map (\<lambda>x. EvalCall (condition x)) (pre @ [r]), Inl m)"
    using evalRules_stops [of ev ctx pre r m post "([], [])" "[]"] by simp
next
  fix x assume "x \<in> set (parseHumanReadableRules text)"
  then show "condition x \<in> set fixedConditions" by (rule parseHumanReadableRules_conditions)
qed

lemma parse_sampleHumanTxt:
  "parseHumanReadableRules sampleHumanTxt =
     [\<lparr>name = ''High AI Confidence'', condition = ''ai_prob > 0.8'', severity = ''error'',
       message = ''Above 80 percent, flag this as an error.''\<rparr>,
      \<lparr>name = ''Excessive Code'', condition = ''lines_added > 300 && ai_prob > 0.5'',
       severity = ''warning'', message = ''Too much.''\<rparr>]"
  by (simp add: parseHumanReadableRules_def sampleHumanTxt_def splitStr_def humanRuleOfSection_def
     conditionOfTitle_def trim_def isJsSpace_def List.map_filter_def Let_def)

text \<open>
  In analyzeRepository the call for the first rule throws, whatever the rules and the
  results of the analysis are: no rule is ever triggered there.
\<close>

lemma repoEval_throws:
  "c \<in> set fixedConditions \<Longrightarrow> repoEval c ctx = Threw ''ai_prob is not defined''
     \<or> repoEval c ctx = Threw ''lines_added is not defined''"
  by (simp add: repoEval_def)

lemma repo_rules_first_throws:
  assumes "parseHumanReadableRules text = r # rest"
  shows "\<exists>m. evalRules repoEval ctx (parseHumanReadableRules text) ([], []) []
            = ([EvalCall (condition r)], Inl m)"
proof -
  have "r \<in> set (parseHumanReadableRules text)" using assms by simp
  then have "condition r \<in> set fixedConditions" by (rule parseHumanReadableRules_conditions)
  then obtain m where "repoEval (condition r) ctx = Threw m"
    using repoEval_throws [of "condition r" ctx] by blast
  then show ?thesis using assms by simp
qed

theorem conditions_are_handed_to_eval_witness:
  "list_all (completes sampleEval sampleCtx) (parseRulesFromText sampleReviewTxt)
   \<and> evalRules sampleEval sampleCtx (parseRulesFromText sampleReviewTxt) ([], []) []
       = ([EvalCall ''Math.max(1, 2)''], Inr ([''m''], []))
   \<and> parseHumanReadableRules sampleHumanTxt
       = [] @ \<lparr>name = ''High AI Confidence'', condition = ''ai_prob > 0.8'', severity = ''error'',
                message = ''Above 80 percent, flag this as an error.''\<rparr>
            # [\<lparr>name = ''Excessive Code'', condition = ''lines_added > 300 && ai_prob > 0.5'',
                 severity = ''warning'', message = ''Too much.''\<rparr>]
   \<and> repoEval ''ai_prob > 0.8'' sampleCtx = Threw ''ai_prob is not defined''
   \<and> evalRules repoEval sampleCtx (parseHumanReadableRules sampleHumanTxt) ([], []) []
       = ([EvalCall ''ai_prob > 0.8''], Inl ''ai_prob is not defined'')
   \<and> fst (evalRules repoEval sampleCtx (parseHumanReadableRules sampleHumanTxt) ([], []) [])
       = map (\<lambda>x. EvalCall (condition x)) (evaluated repoEval sampleCtx (parseHumanReadableRules sampleHumanTxt))
   \<and> ''lines_added > 300 && ai_prob > 0.5'' \<in> set fixedConditions"
proof -
  let ?r1 = "\<lparr>name = ''High AI Confidence'', condition = ''ai_prob > 0.8'', severity = ''error'',
                message = ''Above 80 percent, flag this as an error.''\<rparr>"
  let ?r2 = "\<lparr>name = ''Excessive Code'', condition = ''lines_added > 300 && ai_prob > 0.5'',
                 severity = ''warning'', message = ''Too much.''\<rparr>"
  have c: "list_all (completes sampleEval sampleCtx) (parseRulesFromText sampleReviewTxt)"
    by (simp add: parse_sampleReviewTxt completes_def sampleEval_def)
  note A = conditions_are_handed_to_eval [of sampleEval sampleCtx "parseRulesFromText sampleReviewTxt"]
  have a: "evalRules sampleEval sampleCtx (parseRulesFromText sampleReviewTxt) ([], []) []
       = ([EvalCall ''Math.max(1, 2)''], Inr ([''m''], []))"
    using A [THEN conjunct2, THEN conjunct1] c
    by (simp add: parse_sampleReviewTxt sampleEval_def trim_def isJsSpace_def)
  have p: "parseHumanReadableRules sampleHumanTxt = [] @ ?r1 # [?r2]"
    by (simp add: parse_sampleHumanTxt)
  have t: "repoEval ''ai_prob > 0.8'' sampleCtx = Threw ''ai_prob is not defined''"
    by (simp add: repoEval_def fixedConditions_def)
  note B = conditions_are_handed_to_eval
      [of repoEval sampleCtx "parseHumanReadableRules sampleHumanTxt" "[]" ?r1 "''ai_prob is not defined''"
          "[?r2]" sampleHumanTxt]
  have b: "evalRules repoEval sampleCtx (parseHumanReadableRules sampleHumanTxt) ([], []) []
       = ([EvalCall ''ai_prob > 0.8''], Inl ''ai_prob is not defined'')"
    using B [THEN conjunct2, THEN conjunct2, THEN conjunct1] t by (simp add: parse_sampleHumanTxt)
  have f: "fst (evalRules repoEval sampleCtx (parseHumanReadableRules sampleHumanTxt) ([], []) [])
       = map (\<lambda>x. EvalCall (condition x)) (evaluated repoEval sampleCtx (parseHumanReadableRules sampleHumanTxt))"
    by (rule B [THEN conjunct1])
  have m: "''lines_added > 300 && ai_prob > 0.5'' \<in> set fixedConditions"
    using B [THEN conjunct2, THEN conjunct2, THEN conjunct2] by (simp add: parse_sampleHumanTxt)
  show ?thesis
    by (intro conjI c a p t b f m)
qed

text \<open>
  The claim as stated fails: a condition read from the configuration that calls a
  function is evaluated by the interpreter like any other, and its truthy value triggers
  the rule.
\<close>

theorem function_call_in_condition_is_evaluated:
  "parseRulesFromText sampleReviewTxt =
     [\<lparr>name = ''calls'', condition = ''Math.max(1, 2)'', severity = ''error'', message = ''m''\<rparr>]
   \<and> prScript (sampleEnv [Verdict (sampleVerdict 1 ''good'')] sampleReviewTxt) [plusFile] =
     \<lparr>trace = [ClassifierCall 0, RulesFileRead, EvalCall ''Math.max(1, 2)'', ReviewPost, SlackWebhook],
      ending = Exited 1\<rparr>"
  using parse_sampleReviewTxt run_error_rule by simp

lemma prBatches_none:
  assumes "filter hasPatch files = []"
  shows "prBatches files = []"
proof (rule ccontr)
  assume "prBatches files \<noteq> []"
  then obtain b bs where bs: "prBatches files = b # bs" by (cases "prBatches files") auto
  then have "b \<in> set (prBatches files)" by simp
  then have "b \<noteq> []" using prBatches_withinLimit by blast
  moreover have "concat (prBatches files) = []" using assms by (simp add: prBatches_concat)
  ultimately show False using bs by simp
qed

lemma prAnalysis_no_batches:
  "filter hasPatch files = [] \<Longrightarrow>
   prAnalysis cl files = ([], Inr \<lparr>overallAiProb = 0, allRationales = []\<rparr>)"
  by (simp add: prAnalysis_def prBatches_none)

text \<open>
  Claim C8, as amended.  In \<open>analyzePullRequest\<close> (the GitHub App script), when the filter
  leaves no file the run ends at once with the status \<open>skipped\<close> and its own error text,
  and calls neither the classifier nor the evaluation of the rules (nor posts anything).
  The pull-request script has no such exit: when no file has a patch it calls the
  classifier for no batch, but it still reads the rules, evaluates every rule and posts
  the review, like any other run.
\<close>

theorem no_files_to_analyze:
  assumes "prFiles env = Inr files" and "filterCodeFiles env files = []"
    and "filter hasPatch files2 = []" and "reviewTxt env2 = Some text"
    and "list_all (completes (jsEval env2) (prContext files2 \<lparr>overallAiProb = 0, allRationales = []\<rparr>))
           (parseRulesFromText text)"
  shows "analysis_status (reportData (analyzePullRequest env)) = ''skipped''
     \<and> error (reportData (analyzePullRequest env)) = Some ''No code files to analyze after filtering''
     \<and> effects (analyzePullRequest env) = []
     \<and> trace (prScript env2 files2)
         = RulesFileRead # map (\<lambda>r. EvalCall (condition r)) (parseRulesFromText text) @ [ReviewPost]"
proof -
  have app: "analyzePullRequest env =
       \<lparr>reportData = (initializeReportData env)\<lparr>files_total := length files, files_filtered := 0,
            analysis_status := ''skipped'', error := Some ''No code files to analyze after filtering''\<rparr>,
        effects = []\<rparr>"
    using assms(1,2) by (simp add: analyzePullRequest_def Let_def)
  have a: "snd (prAnalysis (classifier env2) files2) = Inr \<lparr>overallAiProb = 0, allRationales = []\<rparr>"
    using assms(3) by (simp add: prAnalysis_no_batches)
  have "trace (prScript env2 files2)
         = RulesFileRead # map (\<lambda>r. EvalCall (condition r)) (parseRulesFromText text) @ [ReviewPost]"
    unfolding prScript_published [OF a assms(4,5)]
    using assms(3) by (simp add: prPublish_def prScore_def toFixed1_def prAnalysis_no_batches)
  then show ?thesis using app by simp
qed

theorem no_files_to_analyze_witness:
  "filterCodeFiles (sampleAppEnv [binaryFile]) [binaryFile] = []
   \<and> analysis_status (reportData (analyzePullRequest (sampleAppEnv [binaryFile]))) = ''skipped''
   \<and> effects (analyzePullRequest (sampleAppEnv [binaryFile])) = []
   \<and> filter hasPatch [binaryFile] = []
   \<and> trace (prScript (sampleEnv [] warningReviewTxt) [binaryFile])
       = [RulesFileRead, EvalCall ''!ctx.tests_changed'', ReviewPost]"
proof -
  have h1: "prFiles (sampleAppEnv [binaryFile]) = Inr [binaryFile]" by (simp add: sampleAppEnv_def)
  have h2: "filterCodeFiles (sampleAppEnv [binaryFile]) [binaryFile] = []"
    by (simp add: sampleAppEnv_def binaryFile_def hasPatch_def)
  have h3: "filter hasPatch [binaryFile] = []" by (simp add: binaryFile_def hasPatch_def)
  have h4: "reviewTxt (sampleEnv [] warningReviewTxt) = Some warningReviewTxt" by (simp add: sampleEnv_def)
  have h5: "list_all (completes (jsEval (sampleEnv [] warningReviewTxt))
                (prContext [binaryFile] \<lparr>overallAiProb = 0, allRationales = []\<rparr>))
              (parseRulesFromText warningReviewTxt)"
    by (simp add: sampleEnv_def parse_warningReviewTxt completes_def sampleEval_def)
  show ?thesis
    using no_files_to_analyze [OF h1 h2 h3 h4 h5] h2 h3 by (simp add: parse_warningReviewTxt)
qed

text \<open>
  The claim as stated fails in the pull-request script: with no file at all the rule of
  the configuration is evaluated, the review is posted and the run ends with code 0.
\<close>

theorem rules_run_without_files:
  "prScript (sampleEnv [] warningReviewTxt) [] =
     \<lparr>trace = [RulesFileRead, EvalCall ''!ctx.tests_changed'', ReviewPost], ending = Exited 0\<rparr>"
  by (rule run_no_files)

section \<open>Failed batches and weights\<close>

lemma repoAnalyzeStep_rationales:
  "\<exists>l. allRationales (repoAnalyzeStep cl n i b acc) = allRationales acc @ [l]"
  by (simp add: repoAnalyzeStep_def split: classifierResult.splits)

lemma repoAnalyze_rationales:
  "\<exists>ls. length ls = length bs \<and> allRationales (repoAnalyze cl n i bs acc) = allRationales acc @ ls"
proof (induction bs arbitrary: i acc)
  case Nil
  show ?case by simp
next
  case (Cons b bs)
  obtain l where l: "allRationales (repoAnalyzeStep cl n i b acc) = allRationales acc @ [l]"
    using repoAnalyzeStep_rationales by blast
  obtain ls where ls: "length ls = length bs"
    "allRationales (repoAnalyze cl n (Suc i) bs (repoAnalyzeStep cl n i b acc))
     = allRationales (repoAnalyzeStep cl n i b acc) @ ls"
    using Cons.IH [of "Suc i" "repoAnalyzeStep cl n i b acc"] by blast
  have "length (l # ls) = length (b # bs)" using ls(1) by simp
  moreover have "allRationales (repoAnalyze cl n i (b # bs) acc) = allRationales acc @ (l # ls)"
    using l ls(2) by simp
  ultimately show ?case by blast
qed

lemma appAnalyzeStep_rationales:
  "prefix (allRationales acc) (allRationales (appAnalyzeStep cl n i b acc))"
  by (simp add: appAnalyzeStep_def updateOverallCodeQuality_throws Let_def split: classifierResult.splits)

lemma appAnalyze_rationales:
  "prefix (allRationales acc) (allRationales (appAnalyze cl n i bs acc))"
proof (induction bs arbitrary: i acc)
  case Nil
  show ?case by simp
next
  case (Cons b bs)
  have "prefix (allRationales acc) (allRationales (appAnalyzeStep cl n i b acc))"
    by (rule appAnalyzeStep_rationales)
  also have "prefix \<dots> (allRationales (appAnalyze cl n (Suc i) bs (appAnalyzeStep cl n i b acc)))"
    by (rule Cons.IH)
  finally show ?case by simp
qed

lemma repoAnalyze_failed_batch:
  assumes "cl (length pre) b = ClassifierError m"
  shows "repoAnalyze cl n 0 (pre @ b # post) acc =
         repoAnalyze cl n (Suc (length pre)) post
           ((repoAnalyze cl n 0 pre acc)
              \<lparr>allRationales := allRationales (repoAnalyze cl n 0 pre acc) @ [errorLine (length pre) m]\<rparr>)"
  using assms by (simp add: repoAnalyze_append repoAnalyzeStep_def)

lemma appAnalyze_failed_batch:
  assumes "cl (length pre) b = ClassifierError m"
  shows "appAnalyze cl n 0 (pre @ b # post) acc =
         appAnalyze cl n (Suc (length pre)) post
           ((appAnalyze cl n 0 pre acc)
              \<lparr>allRationales := allRationales (appAnalyze cl n 0 pre acc) @ [errorLine (length pre) m]\<rparr>)"
  using assms by (simp add: appAnalyze_append appAnalyzeStep_def)

lemma repoAnalyze_failed_line:
  assumes "cl (length pre) b = ClassifierError m" "allRationales acc = []"
  shows "allRationales (repoAnalyze cl n 0 (pre @ b # post) acc) ! length pre = errorLine (length pre) m
     \<and> length (allRationales (repoAnalyze cl n 0 (pre @ b # post) acc)) = length (pre @ b # post)"
proof -
  let ?s = "repoAnalyze cl n 0 pre acc"
  obtain ls where ls: "length ls = length pre" "allRationales ?s = ls"
    using repoAnalyze_rationales [of pre cl n 0 acc] assms(2) by auto
  let ?t = "?s\<lparr>allRationales := allRationales ?s @ [errorLine (length pre) m]\<rparr>"
  obtain rs where rs: "length rs = length post"
     "allRationales (repoAnalyze cl n (Suc (length pre)) post ?t) = allRationales ?t @ rs"
    using repoAnalyze_rationales [of post cl n "Suc (length pre)" ?t] by blast
  have "allRationales (repoAnalyze cl n 0 (pre @ b # post) acc) = ls @ errorLine (length pre) m # rs"
    using repoAnalyze_failed_batch [of cl pre b m n post acc] assms(1) rs(2) ls(2) by simp
  then show ?thesis using ls(1) rs(1) by (simp add: nth_append)
qed

lemma appAnalyze_failed_line:
  assumes "cl (length pre) b = ClassifierError m"
  shows "prefix (allRationales (appAnalyze cl n 0 pre acc) @ [errorLine (length pre) m])
           (allRationales (appAnalyze cl n 0 (pre @ b # post) acc))"
proof -
  let ?s = "appAnalyze cl n 0 pre acc"
  let ?t = "?s\<lparr>allRationales := allRationales ?s @ [errorLine (length pre) m]\<rparr>"
  have "prefix (allRationales ?t) (allRationales (appAnalyze cl n (Suc (length pre)) post ?t))"
    by (rule appAnalyze_rationales)
  then show ?thesis
    using appAnalyze_failed_batch [of cl pre b m n post acc] assms by simp
qed

lemma repoAnalyze_failed_prob:
  assumes "cl (length pre) b = ClassifierError m"
  shows "overallAiProb (repoAnalyze cl n 0 (pre @ [b]) acc) = overallAiProb (repoAnalyze cl n 0 pre acc)"
  using assms by (simp add: repoAnalyze_append repoAnalyzeStep_def)

lemma appAnalyze_failed_prob:
  assumes "cl (length pre) b = ClassifierError m"
  shows "overallAiProb (appAnalyze cl n 0 (pre @ [b]) acc) = overallAiProb (appAnalyze cl n 0 pre acc)"
  using assms by (simp add: appAnalyze_append appAnalyzeStep_def)

text \<open>
  Claim C5, as amended.  In analyzeCodeBatches and in \<open>analyzePullRequest\<close> a call of the
  classifier that throws is caught: the run goes on with the batches after it from the
  state it had before, changed by the error line of the batch only, and the probability
  after the failed batch is the one before it.  In analyzeCodeBatches the trail has one
  line per batch, and the error line stands at the place of the batch; in
  \<open>analyzePullRequest\<close> the error line follows the lines that the batches before it left.
\<close>

theorem failed_batch_is_recorded_and_passed:
  assumes "cl (length pre) b = ClassifierError m"
    and "cl2 (length pre2) b2 = ClassifierError m2"
  shows "repoAnalyze cl n 0 (pre @ b # post) repoTotalsInit =
           repoAnalyze cl n (Suc (length pre)) post
             ((repoAnalyze cl n 0 pre repoTotalsInit)
                \<lparr>allRationales := allRationales (repoAnalyze cl n 0 pre repoTotalsInit)
                                    @ [errorLine (length pre) m]\<rparr>)
     \<and> allRationales (repoAnalyze cl n 0 (pre @ b # post) repoTotalsInit) ! length pre
         = errorLine (length pre) m
     \<and> length (allRationales (repoAnalyze cl n 0 (pre @ b # post) repoTotalsInit)) = length (pre @ b # post)
     \<and> overallAiProb (repoAnalyze cl n 0 (pre @ [b]) repoTotalsInit)
         = overallAiProb (repoAnalyze cl n 0 pre repoTotalsInit)
     \<and> appAnalyze cl2 n2 0 (pre2 @ b2 # post2) appTotalsInit =
           appAnalyze cl2 n2 (Suc (length pre2)) post2
             ((appAnalyze cl2 n2 0 pre2 appTotalsInit)
                \<lparr>allRationales := allRationales (appAnalyze cl2 n2 0 pre2 appTotalsInit)
                                    @ [errorLine (length pre2) m2]\<rparr>)
     \<and> prefix (allRationales (appAnalyze cl2 n2 0 pre2 appTotalsInit) @ [errorLine (length pre2) m2])
         (allRationales (appAnalyze cl2 n2 0 (pre2 @ b2 # post2) appTotalsInit))
     \<and> overallAiProb (appAnalyze cl2 n2 0 (pre2 @ [b2]) appTotalsInit)
         = overallAiProb (appAnalyze cl2 n2 0 pre2 appTotalsInit)"
proof -
  have r0: "allRationales repoTotalsInit = []" by (simp add: repoTotalsInit_def)
  show ?thesis
    using repoAnalyze_failed_batch [of cl pre b m n post repoTotalsInit]
      repoAnalyze_failed_line [of cl pre b m repoTotalsInit n post]
      repoAnalyze_failed_prob [of cl pre b m n repoTotalsInit]
      appAnalyze_failed_batch [of cl2 pre2 b2 m2 n2 post2 appTotalsInit]
      appAnalyze_failed_line [of cl2 pre2 b2 m2 n2 appTotalsInit post2]
      appAnalyze_failed_prob [of cl2 pre2 b2 m2 n2 appTotalsInit]
      assms r0
    by simp
qed

lemma repoAnalyze_failingSecond:
  "repoAnalyze failingSecond 3 0 [[e], [e], [e]] repoTotalsInit =
     \<lparr>overallAiProb = 1 / 3,
      allRationales = [''Batch 1 (1 files): r'', ''Batch 2: Error during analysis - timeout'',
                       ''Batch 3 (1 files): r''],
      allPatterns = [], overallCodeQuality = ''poor''\<rparr>"
  by (simp add: failingSecond_def repoAnalyzeStep_def scripted_def sampleVerdict_def repoTotalsInit_def
      repoQuality_def verdictLine_def errorLine_def showNat.simps digitChar_def addPatterns_def)

lemma appAnalyze_failingSecond:
  "appAnalyze failingSecond 3 0 [[plusFile], [plusFile], [plusFile]] appTotalsInit =
     \<lparr>overallAiProb = 1 / 3,
      allRationales = [''Batch 1 (1 files): r'',
                       ''Batch 1: Error during analysis - overallCodeQuality is not defined'',
                       ''Batch 2: Error during analysis - timeout'',
                       ''Batch 3 (1 files): r'',
                       ''Batch 3: Error during analysis - overallCodeQuality is not defined''],
      allPatterns = [], overallCodeQuality = ''Unknown'', tokenCount = 2\<rparr>"
  by (simp add: failingSecond_def appAnalyzeStep_def scripted_def sampleVerdict_def appTotalsInit_def
      updateOverallCodeQuality_throws Let_def
      verdictLine_def errorLine_def showNat.simps digitChar_def addPatterns_def batchTokenEstimate_def
      plusFile_def patchLength_def)

theorem failed_batch_is_recorded_and_passed_witness:
  "failingSecond (length [[entryOf smallFile]]) [entryOf smallFile] = ClassifierError ''timeout''
   \<and> allRationales (repoAnalyze failingSecond 3 0 ([[entryOf smallFile]] @ [entryOf smallFile] # [[entryOf smallFile]])
         repoTotalsInit) ! length [[entryOf smallFile]] = errorLine (length [[entryOf smallFile]]) ''timeout''
   \<and> failingSecond (length [[plusFile]]) [plusFile] = ClassifierError ''timeout''
   \<and> prefix (allRationales (appAnalyze failingSecond 3 0 [[plusFile]] appTotalsInit)
               @ [errorLine (length [[plusFile]]) ''timeout''])
        (allRationales (appAnalyze failingSecond 3 0 ([[plusFile]] @ [plusFile] # [[plusFile]]) appTotalsInit))
   \<and> errorLine (length [[plusFile]]) ''timeout'' = ''Batch 2: Error during analysis - timeout''
   \<and> overallAiProb (appAnalyze failingSecond 3 0 [[plusFile], [plusFile], [plusFile]] appTotalsInit) = 1 / 3"
proof -
  have h1: "failingSecond (length [[entryOf smallFile]]) [entryOf smallFile] = ClassifierError ''timeout''"
    by (simp add: failingSecond_def scripted_def)
  have h2: "failingSecond (length [[plusFile]]) [plusFile] = ClassifierError ''timeout''"
    by (simp add: failingSecond_def scripted_def)
  have e: "errorLine (length [[plusFile]]) ''timeout'' = ''Batch 2: Error during analysis - timeout''"
    by (simp add: errorLine_def showNat.simps digitChar_def)
  have p: "overallAiProb (appAnalyze failingSecond 3 0 [[plusFile], [plusFile], [plusFile]] appTotalsInit) = 1 / 3"
    by (simp only: appAnalyze_failingSecond appTotals.simps prTotals.simps)
  note T = failed_batch_is_recorded_and_passed
      [where cl = failingSecond and pre = "[[entryOf smallFile]]" and b = "[entryOf smallFile]"
         and m = "''timeout''" and post = "[[entryOf smallFile]]" and n = 3
         and ?cl2.0 = failingSecond and ?pre2.0 = "[[plusFile]]" and ?b2.0 = "[plusFile]"
         and ?m2.0 = "''timeout''" and ?post2.0 = "[[plusFile]]" and ?n2.0 = 3, OF h1 h2]
  have r: "allRationales (repoAnalyze failingSecond 3 0 ([[entryOf smallFile]] @ [entryOf smallFile] # [[entryOf smallFile]])
         repoTotalsInit) ! length [[entryOf smallFile]] = errorLine (length [[entryOf smallFile]]) ''timeout''"
    by (rule T [THEN conjunct2, THEN conjunct1])
  have a: "prefix (allRationales (appAnalyze failingSecond 3 0 [[plusFile]] appTotalsInit)
               @ [errorLine (length [[plusFile]]) ''timeout''])
        (allRationales (appAnalyze failingSecond 3 0 ([[plusFile]] @ [plusFile] # [[plusFile]]) appTotalsInit))"
    by (rule T [THEN conjunct2, THEN conjunct2, THEN conjunct2, THEN conjunct2, THEN conjunct2, THEN conjunct1])
  show ?thesis
    by (intro conjI h1 r h2 a e p)
qed

text \<open>
  The claim as stated fails in the pull-request script, whose call of the classifier is
  not guarded: the failure of the only batch ends the run there, with no trail and no review.
\<close>

theorem classifier_failure_ends_pr_script:
  "prScript (sampleEnv [ClassifierError ''timeout''] sampleReviewTxt) [plusFile] =
     \<lparr>trace = [ClassifierCall 0], ending = Crashed AtClassifier ''timeout''\<rparr>"
  by (rule run_classifier_fails)


subsection \<open>Weights\<close>

lemma totalFiles_foldl:
  "totalFiles (foldl repoStep s fs) = totalFiles s + length (filter analyzable fs)"
proof (induction fs arbitrary: s)
  case Nil
  show ?case by simp
next
  case (Cons f fs)
  have "totalFiles (repoStep s f) = totalFiles s + length (filter analyzable [f])"
    by (simp add: repoStep_def analyzable_def closeBatch_def Let_def split: fetchResult.splits)
  then show ?case using Cons.IH [of "repoStep s f"] by simp
qed

lemma totalFiles_repoScan: "totalFiles (repoScan files) = length (concat (repoBatches files))"
proof -
  have "totalFiles (repoScan files) = length (filter analyzable files)"
    by (simp add: repoScan_def totalFiles_foldl repoInit_def)
  then show ?thesis by (simp add: repoBatches_concat)
qed

lemma sum_weights: "(\<Sum>b\<leftarrow>bs. real (length b) / real n) = real (length (concat bs)) / real n"
  by (induction bs) (simp_all add: add_divide_distrib)

text \<open>
  In analyzeCodeBatches every batch with a verdict adds its probability times its share
  of \<open>totalFiles\<close>, and a failed batch adds nothing.
\<close>

lemma repoAnalyze_prob:
  "overallAiProb (repoAnalyze cl n i bs acc) =
     overallAiProb acc
     + (\<Sum>(k, b)\<leftarrow>zip [i..<i + length bs] bs.
          case cl k b of Verdict v \<Rightarrow> ai_prob v * (real (length b) / real n) | ClassifierError m \<Rightarrow> 0)"
proof (induction bs arbitrary: i acc)
  case Nil
  show ?case by simp
next
  case (Cons b bs)
  have z: "zip [i..<i + length (b # bs)] (b # bs) = (i, b) # zip [Suc i..<Suc i + length bs] bs"
  proof -
    have "[i..<i + length (b # bs)] = i # [Suc i..<Suc i + length bs]"
      using upt_conv_Cons [of i "i + length (b # bs)"] by simp
    then show ?thesis by (simp del: upt_Suc)
  qed
  have step: "overallAiProb (repoAnalyzeStep cl n i b acc) =
     overallAiProb acc
     + (case cl i b of Verdict v \<Rightarrow> ai_prob v * (real (length b) / real n) | ClassifierError m \<Rightarrow> 0)"
    by (simp add: repoAnalyzeStep_def split: classifierResult.splits)
  show ?case
    unfolding z using Cons.IH [of "Suc i" "repoAnalyzeStep cl n i b acc"] step by simp
qed

lemma repoAnalysis_prob:
  "overallAiProb (repoAnalysis cl files) =
     (\<Sum>(k, b)\<leftarrow>zip [0..<length (repoBatches files)] (repoBatches files).
          case cl k b of
            Verdict v \<Rightarrow> ai_prob v * (real (length b) / real (totalFiles (repoScan files)))
          | ClassifierError m \<Rightarrow> 0)"
  using repoAnalyze_prob [of cl "totalFiles (repoScan files)" 0 "repoBatches files" repoTotalsInit]
  by (simp add: repoAnalysis_def repoTotalsInit_def)

text \<open>
  In analyzeCodeBatches the weights of the batches add up to 1; in the pull-request script
  they add up to the share of the files that have a patch.
\<close>

lemma repo_weights_add_up:
  assumes "repoBatches files \<noteq> []"
  shows "(\<Sum>b\<leftarrow>repoBatches files. real (length b) / real (totalFiles (repoScan files))) = 1"
proof -
  obtain b bs where bs: "repoBatches files = b # bs" using assms by (cases "repoBatches files") auto
  then have "b \<in> set (repoBatches files)" by simp
  then have "b \<noteq> []" using repoBatches_bounds by blast
  then have "concat (repoBatches files) \<noteq> []" using bs by simp
  then show ?thesis by (simp add: sum_weights totalFiles_repoScan)
qed

lemma pr_weights_add_up:
  "(\<Sum>b\<leftarrow>prBatches files. real (length b) / real (length files))
   = real (length (filter hasPatch files)) / real (length files)"
  by (simp add: sum_weights prBatches_concat)

text \<open>
  Claim C3 at a pull request of one file with a patch and one without: the single batch
  holds the one file that is analysed, its verdict is the probability 1, and the
  aggregate is one half, since the weight divides by the number of all files.
\<close>

theorem pr_weight_counts_files_without_patch:
  "prBatches [plusFile, binaryFile] = [[plusFile]]
   \<and> prAnalysis (scripted [Verdict (sampleVerdict 1 ''good'')]) [plusFile, binaryFile]
       = ([ClassifierCall 0], Inr \<lparr>overallAiProb = 1 / 2, allRationales = [''Batch 1: r'']\<rparr>)"
proof
  show "prBatches [plusFile, binaryFile] = [[plusFile]]" by (rule prBatches_plus_binary)
  show "prAnalysis (scripted [Verdict (sampleVerdict 1 ''good'')]) [plusFile, binaryFile]
       = ([ClassifierCall 0], Inr \<lparr>overallAiProb = 1 / 2, allRationales = [''Batch 1: r'']\<rparr>)"
    by (simp add: prAnalysis_def prBatches_plus_binary scripted_def sampleVerdict_def showNat.simps digitChar_def)
qed

end
